theory Spec2Isabelle
  imports Complex_Main "HOL-Library.AList" "HOL-Library.Monad_Syntax"
begin

section \<open>JavaScript values\<close>

text \<open>
  The data handled by \<^verbatim>\<open>services/db\<close> and by the dashboard comes out of \<^verbatim>\<open>JSON.parse\<close>:
  the import file and the text kept in \<^verbatim>\<open>localStorage\<close>. A value is therefore \<^verbatim>\<open>null\<close>,
  a boolean, a finite number, a string, an array or an object whose properties are kept in
  insertion order. \<^verbatim>\<open>undefined\<close>, which only arises from reading a property that is not
  there, is \<open>None\<close> of \<open>jsval option\<close>. Numbers are the rationals (every finite double is
  one; \<open>-0\<close> and \<open>0\<close> behave alike in every operation used here). Strings are HOL strings,
  read as ASCII text.
\<close>

datatype jsval =
    JNull
  | JBool bool
  | JNum rat
  | JStr string
  | JArr "jsval list"
  | JObj "(string \<times> jsval) list"

datatype error = TypeError | RangeError | SyntaxError | Error string

text \<open>
  What the engine and the browser decide, and the language standard leaves open:
  the text of a number that is not a safe integer, the result of \<^verbatim>\<open>Date.parse\<close> on a string
  outside the forms modelled below (\<open>None\<close> is \<^verbatim>\<open>NaN\<close>), and the offset of local time from
  UTC in milliseconds, at a UTC instant and at a local one.
\<close>

record host =
  number_text :: "rat \<Rightarrow> string"
  date_text :: "string \<Rightarrow> int option"
  tza_utc :: "int \<Rightarrow> int"
  tza_local :: "int \<Rightarrow> int"

subsection \<open>Truthiness and \<^verbatim>\<open>||\<close>\<close>

fun truthy :: "jsval option \<Rightarrow> bool" where
  "truthy None = False"
| "truthy (Some JNull) = False"
| "truthy (Some (JBool b)) = b"
| "truthy (Some (JNum r)) = (r \<noteq> 0)"
| "truthy (Some (JStr s)) = (s \<noteq> [])"
| "truthy (Some (JArr xs)) = True"
| "truthy (Some (JObj al)) = True"

text \<open>\<^verbatim>\<open>a || b\<close>; \<open>or_val\<close> when \<open>b\<close> is a literal, so that the result is a value.\<close>

definition or_js :: "jsval option \<Rightarrow> jsval option \<Rightarrow> jsval option" where
  "or_js a b = (if truthy a then a else b)"

fun or_val :: "jsval option \<Rightarrow> jsval \<Rightarrow> jsval" where
  "or_val None b = b"
| "or_val (Some a) b = (if truthy (Some a) then a else b)"

subsection \<open>Strings\<close>

definition digit_char :: "nat \<Rightarrow> char" where
  "digit_char n = ''0123456789'' ! n"

definition digit_val :: "char \<Rightarrow> nat option" where
  "digit_val c = map_of [(CHR ''0'', 0), (CHR ''1'', 1), (CHR ''2'', 2), (CHR ''3'', 3),
     (CHR ''4'', 4), (CHR ''5'', 5), (CHR ''6'', 6), (CHR ''7'', 7), (CHR ''8'', 8),
     (CHR ''9'', 9)] c"

text \<open>Decimal digits of a natural number, without leading zeros.\<close>

fun dec :: "nat \<Rightarrow> string" where
  "dec n = (if n < 10 then [digit_char n] else dec (n div 10) @ [digit_char (n mod 10)])"

declare dec.simps [simp del]

text \<open>
  \<^verbatim>\<open>Number::toString\<close>: an integer up to \<open>2^53\<close> in magnitude prints as its decimal digits;
  the shortest round-trip text of any other number is the engine's.
\<close>

definition number_toString :: "host \<Rightarrow> rat \<Rightarrow> string" where
  "number_toString h r =
     (if of_int \<lfloor>r\<rfloor> = r \<and> \<bar>r\<bar> \<le> 2 ^ 53
      then (if r < 0 then CHR ''-'' # dec (nat (- \<lfloor>r\<rfloor>)) else dec (nat \<lfloor>r\<rfloor>))
      else number_text h r)"

fun join_comma :: "string list \<Rightarrow> string" where
  "join_comma [] = []"
| "join_comma [s] = s"
| "join_comma (s # t # ss) = s @ CHR '','' # join_comma (t # ss)"

text \<open>The results of a list of steps, or the first error among them.\<close>

fun collect :: "(error + 'a) list \<Rightarrow> error + 'a list" where
  "collect [] = Inr []"
| "collect (x # xs) =
     (case x of
        Inl e \<Rightarrow> Inl e
      | Inr y \<Rightarrow> (case collect xs of Inl e \<Rightarrow> Inl e | Inr ys \<Rightarrow> Inr (y # ys)))"

text \<open>
  \<^verbatim>\<open>ToString\<close> on a value. An object is first made primitive by its \<^verbatim>\<open>toString\<close> and
  \<^verbatim>\<open>valueOf\<close> methods. A parsed object inherits both: \<^verbatim>\<open>toString\<close> answers
  \<^verbatim>\<open>[object Object]\<close>, \<^verbatim>\<open>valueOf\<close> answers the object itself, which is no primitive. An own
  property named \<^verbatim>\<open>toString\<close> hides the inherited method, and since no parsed value can be
  called, the conversion then ends in a \<^verbatim>\<open>TypeError\<close>, whatever \<^verbatim>\<open>valueOf\<close> is. An array
  prints its elements joined by commas, \<^verbatim>\<open>null\<close> elements as nothing, and throws where an
  element does.
\<close>

fun toString :: "host \<Rightarrow> jsval \<Rightarrow> error + string" where
  "toString h JNull = Inr ''null''"
| "toString h (JBool b) = Inr (if b then ''true'' else ''false'')"
| "toString h (JNum r) = Inr (number_toString h r)"
| "toString h (JStr s) = Inr s"
| "toString h (JArr xs) =
     (case collect (map (\<lambda>x. case x of JNull \<Rightarrow> Inr [] | _ \<Rightarrow> toString h x) xs) of
        Inl e \<Rightarrow> Inl e
      | Inr ss \<Rightarrow> Inr (join_comma ss))"
| "toString h (JObj al) =
     (case map_of al ''toString'' of
        None \<Rightarrow> Inr ''[object Object]''
      | Some m \<Rightarrow> Inl TypeError)"

text \<open>\<^verbatim>\<open>String(v)\<close>, where \<open>v\<close> may be \<^verbatim>\<open>undefined\<close>.\<close>

definition String_js :: "host \<Rightarrow> jsval option \<Rightarrow> error + string" where
  "String_js h v = (case v of None \<Rightarrow> Inr ''undefined'' | Some x \<Rightarrow> toString h x)"

subsection \<open>Property access and object spread\<close>

text \<open>
  \<^verbatim>\<open>item.k\<close> for the identifier keys this program reads (\<^verbatim>\<open>id\<close>, \<^verbatim>\<open>name\<close>, \<^verbatim>\<open>dueDate\<close>, ...):
  reading from \<^verbatim>\<open>null\<close> throws, an object answers from its own properties, and no boolean,
  number, string or array has a property of one of these names.
\<close>

fun get_prop :: "jsval \<Rightarrow> string \<Rightarrow> error + jsval option" where
  "get_prop JNull k = Inl TypeError"
| "get_prop (JObj al) k = Inr (map_of al k)"
| "get_prop v k = Inr None"

text \<open>The same read once an earlier read has shown that the item is not \<^verbatim>\<open>null\<close>.\<close>

definition field :: "jsval \<Rightarrow> string \<Rightarrow> jsval option" where
  "field item k = (case get_prop item k of Inr v \<Rightarrow> v | Inl e \<Rightarrow> None)"

text \<open>
  The own enumerable properties that \<^verbatim>\<open>{...v}\<close> copies: those of an object, the indexed
  elements of an array, the indexed characters of a string, none of anything else.
\<close>

fun indexed :: "nat \<Rightarrow> jsval list \<Rightarrow> (string \<times> jsval) list" where
  "indexed i [] = []"
| "indexed i (x # xs) = (dec i, x) # indexed (Suc i) xs"

fun own_props :: "jsval \<Rightarrow> (string \<times> jsval) list" where
  "own_props (JObj al) = al"
| "own_props (JArr xs) = indexed 0 xs"
| "own_props (JStr s) = indexed 0 (map (\<lambda>c. JStr [c]) s)"
| "own_props v = []"

text \<open>
  Writing properties \<open>b\<close> over an object \<open>a\<close>, left to right: a key that is there keeps its
  place and takes the new value, a new key goes to the end.
\<close>

definition assign :: "(string \<times> jsval) list \<Rightarrow> (string \<times> jsval) list \<Rightarrow> (string \<times> jsval) list" where
  "assign a b = fold (\<lambda>(k, v). AList.update k v) b a"

section \<open>Dates\<close>

text \<open>
  \<^verbatim>\<open>Date\<close> as the language standard defines it. A time value is a number of milliseconds
  since 1970-01-01T00:00:00Z; a \<^verbatim>\<open>Date\<close> object is its time value, \<open>None\<close> being \<^verbatim>\<open>NaN\<close>
  (an invalid date). The standard specifies \<^verbatim>\<open>YearFromTime(t)\<close> as the largest year that
  starts at or before \<open>t\<close>; \<open>YearFromDay\<close> computes it from an estimate that is corrected by
  one year either way (lemma \<open>YearFromDay_spec\<close> below).
\<close>

definition msPerDay :: int where
  "msPerDay = 86400000"

definition Day :: "int \<Rightarrow> int" where
  "Day t = t div msPerDay"

definition TimeWithinDay :: "int \<Rightarrow> int" where
  "TimeWithinDay t = t mod msPerDay"

definition DaysInYear :: "int \<Rightarrow> int" where
  "DaysInYear y = (if y mod 4 \<noteq> 0 then 365 else if y mod 100 \<noteq> 0 then 366
                   else if y mod 400 \<noteq> 0 then 365 else 366)"

definition DayFromYear :: "int \<Rightarrow> int" where
  "DayFromYear y = 365 * (y - 1970) + (y - 1969) div 4 - (y - 1901) div 100 + (y - 1601) div 400"

definition YearFromDay :: "int \<Rightarrow> int" where
  "YearFromDay d =
     (let y = 1970 + (d * 400) div 146097
      in if d < DayFromYear y then y - 1 else if DayFromYear (y + 1) \<le> d then y + 1 else y)"

definition YearFromTime :: "int \<Rightarrow> int" where
  "YearFromTime t = YearFromDay (Day t)"

definition InLeapYear :: "int \<Rightarrow> int" where
  "InLeapYear t = (if DaysInYear (YearFromTime t) = 366 then 1 else 0)"

definition DayWithinYear :: "int \<Rightarrow> int" where
  "DayWithinYear t = Day t - DayFromYear (YearFromTime t)"

definition MonthFromTime :: "int \<Rightarrow> int" where
  "MonthFromTime t =
     (let d = DayWithinYear t; l = InLeapYear t
      in if d < 31 then 0
         else if d < 59 + l then 1
         else if d < 90 + l then 2
         else if d < 120 + l then 3
         else if d < 151 + l then 4
         else if d < 181 + l then 5
         else if d < 212 + l then 6
         else if d < 243 + l then 7
         else if d < 273 + l then 8
         else if d < 304 + l then 9
         else if d < 334 + l then 10
         else 11)"

definition DateFromTime :: "int \<Rightarrow> int" where
  "DateFromTime t =
     (let d = DayWithinYear t; l = InLeapYear t; m = MonthFromTime t
      in if m = 0 then d + 1
         else if m = 1 then d - 30
         else if m = 2 then d - 58 - l
         else if m = 3 then d - 89 - l
         else if m = 4 then d - 119 - l
         else if m = 5 then d - 150 - l
         else if m = 6 then d - 180 - l
         else if m = 7 then d - 211 - l
         else if m = 8 then d - 242 - l
         else if m = 9 then d - 272 - l
         else if m = 10 then d - 303 - l
         else d - 333 - l)"

definition HourFromTime :: "int \<Rightarrow> int" where
  "HourFromTime t = (t div 3600000) mod 24"

definition MinFromTime :: "int \<Rightarrow> int" where
  "MinFromTime t = (t div 60000) mod 60"

definition SecFromTime :: "int \<Rightarrow> int" where
  "SecFromTime t = (t div 1000) mod 60"

definition msFromTime :: "int \<Rightarrow> int" where
  "msFromTime t = t mod 1000"

definition MakeTime :: "int \<Rightarrow> int \<Rightarrow> int \<Rightarrow> int \<Rightarrow> int" where
  "MakeTime hour minute sec ms = hour * 3600000 + minute * 60000 + sec * 1000 + ms"

text \<open>Days from the start of a year of \<open>n\<close> days to the start of month \<open>m\<close> (from 0).\<close>

definition month_start :: "int \<Rightarrow> int \<Rightarrow> int" where
  "month_start n m =
     (let l = (if n = 366 then 1 else 0)
      in if m = 0 then 0
         else if m = 1 then 31
         else if m = 2 then 59 + l
         else if m = 3 then 90 + l
         else if m = 4 then 120 + l
         else if m = 5 then 151 + l
         else if m = 6 then 181 + l
         else if m = 7 then 212 + l
         else if m = 8 then 243 + l
         else if m = 9 then 273 + l
         else if m = 10 then 304 + l
         else 334 + l)"

definition MakeDay :: "int \<Rightarrow> int \<Rightarrow> int \<Rightarrow> int" where
  "MakeDay year month date =
     (let ym = year + month div 12; mn = month mod 12
      in DayFromYear ym + month_start (DaysInYear ym) mn + date - 1)"

definition MakeDate :: "int \<Rightarrow> int \<Rightarrow> int" where
  "MakeDate day time = day * msPerDay + time"

definition TimeClip :: "int \<Rightarrow> int option" where
  "TimeClip t = (if \<bar>t\<bar> > 8640000000000000 then None else Some t)"

subsection \<open>Date text\<close>

text \<open>
  \<^verbatim>\<open>toISOString\<close> writes \<^verbatim>\<open>YYYY-MM-DDTHH:mm:ss.sssZ\<close>, the year with a sign and six digits
  when it is outside 0..9999, and throws a \<^verbatim>\<open>RangeError\<close> on an invalid date.
  \<open>pad k n\<close> is the \<open>k\<close> low decimal digits of \<open>n\<close>.
\<close>

fun pad :: "nat \<Rightarrow> nat \<Rightarrow> string" where
  "pad 0 n = []"
| "pad (Suc k) n = digit_char ((n div 10 ^ k) mod 10) # pad k n"

definition year_text :: "int \<Rightarrow> string" where
  "year_text y =
     (if 0 \<le> y \<and> y \<le> 9999 then pad 4 (nat y)
      else (if y < 0 then CHR ''-'' else CHR ''+'') # pad 6 (nat \<bar>y\<bar>))"

definition iso_text :: "int \<Rightarrow> string" where
  "iso_text t =
     year_text (YearFromTime t) @ CHR ''-'' # pad 2 (nat (MonthFromTime t + 1)) @
     CHR ''-'' # pad 2 (nat (DateFromTime t)) @
     CHR ''T'' # pad 2 (nat (HourFromTime t)) @ CHR '':'' # pad 2 (nat (MinFromTime t)) @
     CHR '':'' # pad 2 (nat (SecFromTime t)) @ CHR ''.'' # pad 3 (nat (msFromTime t)) @ ''Z''"

fun toISOString :: "int option \<Rightarrow> error + string" where
  "toISOString None = Inl RangeError"
| "toISOString (Some t) = Inr (iso_text t)"

text \<open>
  \<^verbatim>\<open>Date.parse\<close>. Two forms of the standard's date-time format denote the same UTC instant
  in every engine and are read here: the date alone, \<^verbatim>\<open>YYYY-MM-DD\<close>, and the full form with
  \<^verbatim>\<open>Z\<close> that \<^verbatim>\<open>toISOString\<close> writes, each with a four-digit or a signed six-digit year and
  with every field in range. The empty string is not a date. What any other string gives
  (other forms, local times, fields out of range, legacy formats) is up to the engine:
  \<open>date_text\<close> of the host, clipped to the range of time values.
\<close>

fun read_digits :: "nat \<Rightarrow> nat \<Rightarrow> string \<Rightarrow> (nat \<times> string) option" where
  "read_digits 0 acc s = Some (acc, s)"
| "read_digits (Suc k) acc [] = None"
| "read_digits (Suc k) acc (c # s) =
     (case digit_val c of None \<Rightarrow> None | Some v \<Rightarrow> read_digits k (acc * 10 + v) s)"

fun expect :: "char \<Rightarrow> string \<Rightarrow> string option" where
  "expect c [] = None"
| "expect c (x # r) = (if x = c then Some r else None)"

fun read_year :: "string \<Rightarrow> (int \<times> string) option" where
  "read_year [] = None"
| "read_year (c # r) =
     (if c = CHR ''+'' then
        (case read_digits 6 0 r of None \<Rightarrow> None | Some (n, r') \<Rightarrow> Some (int n, r'))
      else if c = CHR ''-'' then
        (case read_digits 6 0 r of
           None \<Rightarrow> None
         | Some (n, r') \<Rightarrow> if n = 0 then None else Some (- int n, r'))
      else
        (case read_digits 4 0 (c # r) of None \<Rightarrow> None | Some (n, r') \<Rightarrow> Some (int n, r')))"

text \<open>Days in month \<open>m\<close> (from 0) of a year of \<open>n\<close> days.\<close>

definition DaysInMonth :: "int \<Rightarrow> int \<Rightarrow> int" where
  "DaysInMonth n m =
     (if m = 1 then (if n = 366 then 29 else 28)
      else if m = 3 \<or> m = 5 \<or> m = 8 \<or> m = 10 then 30
      else 31)"

definition read_date :: "string \<Rightarrow> (int \<times> string) option" where
  "read_date s = do {
     (y, r1) \<leftarrow> read_year s;
     r2 \<leftarrow> expect CHR ''-'' r1;
     (m, r3) \<leftarrow> read_digits 2 0 r2;
     r4 \<leftarrow> expect CHR ''-'' r3;
     (d, r5) \<leftarrow> read_digits 2 0 r4;
     if 1 \<le> m \<and> m \<le> 12 \<and> 1 \<le> d \<and> int d \<le> DaysInMonth (DaysInYear y) (int m - 1)
     then Some (MakeDay y (int m - 1) (int d), r5) else None
   }"

definition read_time :: "string \<Rightarrow> int option" where
  "read_time s = do {
     r1 \<leftarrow> expect CHR ''T'' s;
     (h, r2) \<leftarrow> read_digits 2 0 r1;
     r3 \<leftarrow> expect CHR '':'' r2;
     (mi, r4) \<leftarrow> read_digits 2 0 r3;
     r5 \<leftarrow> expect CHR '':'' r4;
     (sec, r6) \<leftarrow> read_digits 2 0 r5;
     r7 \<leftarrow> expect CHR ''.'' r6;
     (ms, r8) \<leftarrow> read_digits 3 0 r7;
     r9 \<leftarrow> expect CHR ''Z'' r8;
     if r9 = [] \<and> h \<le> 23 \<and> mi \<le> 59 \<and> sec \<le> 59
     then Some (MakeTime (int h) (int mi) (int sec) (int ms)) else None
   }"

definition iso_parse :: "string \<Rightarrow> int option" where
  "iso_parse s = do {
     (day, r) \<leftarrow> read_date s;
     if r = [] then Some (MakeDate day 0)
     else do { tm \<leftarrow> read_time r; Some (MakeDate day tm) }
   }"

definition Date_parse :: "host \<Rightarrow> string \<Rightarrow> int option" where
  "Date_parse h s =
     (if s = [] then None
      else case iso_parse s of
             Some t \<Rightarrow> TimeClip t
           | None \<Rightarrow> (case date_text h s of None \<Rightarrow> None | Some t \<Rightarrow> TimeClip t))"

subsection \<open>Date objects\<close>

text \<open>
  \<^verbatim>\<open>new Date(value)\<close>: a string is parsed; an array or an object is first made primitive,
  which gives its string or throws as \<^verbatim>\<open>ToString\<close> does; anything else is turned into a
  number (\<^verbatim>\<open>null\<close> is 0, \<^verbatim>\<open>true\<close> is 1, \<^verbatim>\<open>undefined\<close> is \<^verbatim>\<open>NaN\<close>), which is clipped to the
  range of time values and truncated towards zero.
\<close>

definition TimeClip_num :: "rat \<Rightarrow> int option" where
  "TimeClip_num r =
     (if \<bar>r\<bar> > 8640000000000000 then None
      else Some (if 0 \<le> r then \<lfloor>r\<rfloor> else \<lceil>r\<rceil>))"

definition new_Date :: "host \<Rightarrow> jsval option \<Rightarrow> error + int option" where
  "new_Date h v =
     (case v of
        None \<Rightarrow> Inr None
      | Some JNull \<Rightarrow> Inr (Some 0)
      | Some (JBool b) \<Rightarrow> Inr (Some (if b then 1 else 0))
      | Some (JNum r) \<Rightarrow> Inr (TimeClip_num r)
      | Some (JStr s) \<Rightarrow> Inr (Date_parse h s)
      | Some (JArr xs) \<Rightarrow>
          (case toString h (JArr xs) of Inl e \<Rightarrow> Inl e | Inr s \<Rightarrow> Inr (Date_parse h s))
      | Some (JObj al) \<Rightarrow>
          (case toString h (JObj al) of Inl e \<Rightarrow> Inl e | Inr s \<Rightarrow> Inr (Date_parse h s)))"

text \<open>
  \<^verbatim>\<open>getDate\<close> and \<^verbatim>\<open>setDate\<close> work on local time; \<^verbatim>\<open>setDate\<close> keeps year, month and
  time of day and lets a day number beyond the month's end run over into the next months.
\<close>

definition LocalTime :: "host \<Rightarrow> int \<Rightarrow> int" where
  "LocalTime h t = t + tza_utc h t"

definition UTC :: "host \<Rightarrow> int \<Rightarrow> int" where
  "UTC h t = t - tza_local h t"

definition getDate :: "host \<Rightarrow> int \<Rightarrow> int" where
  "getDate h t = DateFromTime (LocalTime h t)"

definition setDate :: "host \<Rightarrow> int \<Rightarrow> int \<Rightarrow> int option" where
  "setDate h t dt =
     (let tl = LocalTime h t;
          newDate = MakeDate (MakeDay (YearFromTime tl) (MonthFromTime tl) dt) (TimeWithinDay tl)
      in TimeClip (UTC h newDate))"

text \<open>\<^verbatim>\<open>a <= b\<close> on two dates compares their time values and is false when one is \<^verbatim>\<open>NaN\<close>.\<close>

fun date_le :: "int option \<Rightarrow> int option \<Rightarrow> bool" where
  "date_le (Some a) (Some b) = (a \<le> b)"
| "date_le a b = False"

section \<open>Field normalizer\<close>

text \<open>
  \<^verbatim>\<open>safeDate\<close>: \<^verbatim>\<open>new Date(val)\<close> stands before the \<^verbatim>\<open>try\<close>, so what it throws leaves the
  function; \<open>d \<noteq> None\<close> is \<^verbatim>\<open>!isNaN(d.getTime())\<close>, and the \<^verbatim>\<open>catch\<close> turns whatever
  \<^verbatim>\<open>toISOString\<close> throws into the empty string.
\<close>

definition safeDate :: "host \<Rightarrow> jsval option \<Rightarrow> error + string" where
  "safeDate h val =
     (if \<not> truthy val then Inr []
      else case new_Date h val of
             Inl e \<Rightarrow> Inl e
           | Inr d \<Rightarrow>
               if d \<noteq> None
               then (case toISOString d of Inr s \<Rightarrow> Inr s | Inl e \<Rightarrow> Inr [])
               else Inr [])"

text \<open>
  Case mapping and white space on ASCII text: \<^verbatim>\<open>a\<close>..\<^verbatim>\<open>z\<close> are 97..122, \<^verbatim>\<open>A\<close>..\<^verbatim>\<open>Z\<close> are
  65..90, and \<^verbatim>\<open>trim\<close> removes tab, line feed, vertical tab, form feed, carriage return
  and space at both ends.
\<close>

definition is_lower :: "char \<Rightarrow> bool" where
  "is_lower c = (97 \<le> (of_char c :: nat) \<and> (of_char c :: nat) \<le> 122)"

definition is_upper :: "char \<Rightarrow> bool" where
  "is_upper c = (65 \<le> (of_char c :: nat) \<and> (of_char c :: nat) \<le> 90)"

definition to_upper :: "char \<Rightarrow> char" where
  "to_upper c = (if is_lower c then char_of ((of_char c :: nat) - 32) else c)"

definition to_lower :: "char \<Rightarrow> char" where
  "to_lower c = (if is_upper c then char_of ((of_char c :: nat) + 32) else c)"

definition toUpperCase :: "string \<Rightarrow> string" where
  "toUpperCase s = map to_upper s"

definition toLowerCase :: "string \<Rightarrow> string" where
  "toLowerCase s = map to_lower s"

definition is_space :: "char \<Rightarrow> bool" where
  "is_space c = ((of_char c :: nat) \<in> {9, 10, 11, 12, 13, 32})"

definition trim :: "string \<Rightarrow> string" where
  "trim s = rev (dropWhile is_space (rev (dropWhile is_space s)))"

definition charAt :: "string \<Rightarrow> nat \<Rightarrow> string" where
  "charAt s i = (if i < length s then [s ! i] else [])"

definition slice :: "string \<Rightarrow> nat \<Rightarrow> string" where
  "slice s i = drop i s"

definition substr :: "string \<Rightarrow> nat \<Rightarrow> nat \<Rightarrow> string" where
  "substr s start len = take len (drop start s)"

text \<open>\<^verbatim>\<open>normalizeEnum\<close>: \<open>str = []\<close> is \<^verbatim>\<open>!str\<close>.\<close>

definition normalizeEnum :: "host \<Rightarrow> jsval option \<Rightarrow> string \<Rightarrow> error + string" where
  "normalizeEnum h val fallback =
     (case String_js h (or_js val (Some (JStr []))) of
        Inl e \<Rightarrow> Inl e
      | Inr s \<Rightarrow>
          (let str = trim s
           in if str = [] then Inr fallback
              else Inr (toUpperCase (charAt str 0) @ toLowerCase (slice str 1))))"

text \<open>
  \<^verbatim>\<open>generateId\<close>, given the text \<^verbatim>\<open>Math.random().toString(36)\<close> of the random draw, such
  as \<^verbatim>\<open>0.4fzyo82mvyr\<close>.
\<close>

definition generateId :: "string \<Rightarrow> string" where
  "generateId random36 = substr random36 2 9"

section \<open>The store\<close>

text \<open>
  \<^verbatim>\<open>localStorage.getItem(STORAGE_KEY)\<close> is represented by what the code can see of it:
  nothing there (\<^verbatim>\<open>null\<close> or the empty string, both falsy), a text that \<^verbatim>\<open>JSON.parse\<close>
  rejects, or a text that parses to a value. \<^verbatim>\<open>JSON.stringify\<close> followed by \<^verbatim>\<open>JSON.parse\<close>
  gives back every value of \<open>jsval\<close>, so \<^verbatim>\<open>setItem(STORAGE_KEY, JSON.stringify(v))\<close> leaves
  \<open>Parses v\<close>.
\<close>

datatype stored = NoItem | Unparseable | Parses jsval

fun JSON_parse :: "stored \<Rightarrow> error + jsval" where
  "JSON_parse (Parses v) = Inr v"
| "JSON_parse s = Inl SyntaxError"

text \<open>\<^verbatim>\<open>stored ? JSON.parse(stored) : []\<close>\<close>

definition read_items :: "stored \<Rightarrow> error + jsval" where
  "read_items st = (if st = NoItem then Inr (JArr []) else JSON_parse st)"

text \<open>An array method called on a value that is not an array is a \<^verbatim>\<open>TypeError\<close>.\<close>

fun as_array :: "jsval \<Rightarrow> error + jsval list" where
  "as_array (JArr xs) = Inr xs"
| "as_array v = Inl TypeError"

text \<open>\<^verbatim>\<open>item => String(item.id) === String(id)\<close>\<close>

definition id_matches :: "host \<Rightarrow> jsval \<Rightarrow> jsval \<Rightarrow> error + bool" where
  "id_matches h ident item =
     (case get_prop item ''id'' of
        Inl e \<Rightarrow> Inl e
      | Inr v \<Rightarrow>
     (case String_js h v of
        Inl e \<Rightarrow> Inl e
      | Inr a \<Rightarrow>
     (case String_js h (Some ident) of
        Inl e \<Rightarrow> Inl e
      | Inr b \<Rightarrow> Inr (a = b))))"

text \<open>\<^verbatim>\<open>item => String(item.id) !== String(id)\<close>\<close>

definition id_differs :: "host \<Rightarrow> jsval \<Rightarrow> jsval \<Rightarrow> error + bool" where
  "id_differs h ident item =
     (case get_prop item ''id'' of
        Inl e \<Rightarrow> Inl e
      | Inr v \<Rightarrow>
     (case String_js h v of
        Inl e \<Rightarrow> Inl e
      | Inr a \<Rightarrow>
     (case String_js h (Some ident) of
        Inl e \<Rightarrow> Inl e
      | Inr b \<Rightarrow> Inr (a \<noteq> b))))"

text \<open>\<^verbatim>\<open>Array.prototype.findIndex\<close>; \<open>None\<close> is \<open>-1\<close>. The callback may throw.\<close>

fun findIndex :: "('a \<Rightarrow> error + bool) \<Rightarrow> 'a list \<Rightarrow> error + nat option" where
  "findIndex p [] = Inr None"
| "findIndex p (x # xs) =
     (case p x of
        Inl e \<Rightarrow> Inl e
      | Inr True \<Rightarrow> Inr (Some 0)
      | Inr False \<Rightarrow>
          (case findIndex p xs of
             Inl e \<Rightarrow> Inl e
           | Inr None \<Rightarrow> Inr None
           | Inr (Some i) \<Rightarrow> Inr (Some (Suc i))))"

text \<open>\<^verbatim>\<open>Array.prototype.filter\<close> with a callback that may throw.\<close>

fun filter_js :: "('a \<Rightarrow> error + bool) \<Rightarrow> 'a list \<Rightarrow> error + 'a list" where
  "filter_js p [] = Inr []"
| "filter_js p (x # xs) =
     (case p x of
        Inl e \<Rightarrow> Inl e
      | Inr b \<Rightarrow>
          (case filter_js p xs of
             Inl e \<Rightarrow> Inl e
           | Inr ys \<Rightarrow> Inr (if b then x # ys else ys)))"

text \<open>
  Every operation returns what the caller gets (\<open>Inl\<close> a thrown error) together with the
  content of the store when it ends.
\<close>

definition getAll :: "stored \<Rightarrow> (error + jsval) \<times> stored" where
  "getAll st =
     (if st = NoItem then (Inr (JArr []), st)
      else (case JSON_parse st of
              Inr v \<Rightarrow> (Inr v, st)
            | Inl e \<Rightarrow> (Inr (JArr []), st)))"

definition update :: "host \<Rightarrow> stored \<Rightarrow> jsval \<Rightarrow> (string \<times> jsval) list
    \<Rightarrow> (error + jsval) \<times> stored" where
  "update h st ident updates =
     (case read_items st of
        Inl e \<Rightarrow> (Inl e, st)
      | Inr v \<Rightarrow>
     (case as_array v of
        Inl e \<Rightarrow> (Inl e, st)
      | Inr items \<Rightarrow>
     (case findIndex (id_matches h ident) items of
        Inl e \<Rightarrow> (Inl e, st)
      | Inr None \<Rightarrow> (Inl (Error ''Item not found''), st)
      | Inr (Some index) \<Rightarrow>
          (let updatedItem = JObj (assign (own_props (items ! index)) updates)
           in (Inr updatedItem, Parses (JArr (items[index := updatedItem])))))))"

definition delete :: "host \<Rightarrow> stored \<Rightarrow> jsval \<Rightarrow> (error + unit) \<times> stored" where
  "delete h st ident =
     (case read_items st of
        Inl e \<Rightarrow> (Inl e, st)
      | Inr v \<Rightarrow>
     (case as_array v of
        Inl e \<Rightarrow> (Inl e, st)
      | Inr items \<Rightarrow>
     (case filter_js (id_differs h ident) items of
        Inl e \<Rightarrow> (Inl e, st)
      | Inr filtered \<Rightarrow> (Inr (), Parses (JArr filtered)))))"

section \<open>Adding and importing\<close>

text \<open>
  \<open>now\<close> is the clock at \<^verbatim>\<open>new Date()\<close>, a valid date, whose \<^verbatim>\<open>toISOString()\<close> is
  \<open>iso_text now\<close>; \<open>random36\<close> is the text of the random draw of \<^verbatim>\<open>generateId\<close>.
\<close>

definition add :: "stored \<Rightarrow> string \<Rightarrow> int \<Rightarrow> (string \<times> jsval) list
    \<Rightarrow> (error + jsval) \<times> stored" where
  "add st random36 now item =
     (case read_items st of
        Inl e \<Rightarrow> (Inl e, st)
      | Inr v \<Rightarrow>
          (let newItem = JObj (assign item
                 [(''id'', JStr (generateId random36)), (''createdAt'', JStr (iso_text now))])
           in case as_array v of
                Inl e \<Rightarrow> (Inl e, st)
              | Inr items \<Rightarrow> (Inr newItem, Parses (JArr (items @ [newItem])))))"

text \<open>
  The record mapper, the function that \<^verbatim>\<open>importBulk\<close> maps over the imported array, in
  the order in which it evaluates. Its first property read throws on a \<^verbatim>\<open>null\<close> element,
  and every \<^verbatim>\<open>String(...)\<close>, \<^verbatim>\<open>safeDate(...)\<close> and \<^verbatim>\<open>normalizeEnum(...)\<close> throws where the
  conversion of its argument does.
\<close>

definition map_item :: "host \<Rightarrow> string \<Rightarrow> int \<Rightarrow> jsval \<Rightarrow> error + jsval" where
  "map_item h random36 now item =
     (case get_prop item ''serialNumber'' of
        Inl e \<Rightarrow> Inl e
      | Inr sn \<Rightarrow>
     (case String_js h (or_js (or_js (or_js sn (field item ''serial_number''))
              (field item ''SerialNumber'')) (Some (JStr ''N/A''))) of
        Inl e \<Rightarrow> Inl e
      | Inr serialNumber \<Rightarrow>
     (case safeDate h (or_js (field item ''dueDate'') (field item ''due_date'')) of
        Inl e \<Rightarrow> Inl e
      | Inr dueDate \<Rightarrow>
     (case safeDate h (or_js (field item ''issueDate'') (field item ''issue_date'')) of
        Inl e \<Rightarrow> Inl e
      | Inr issueDate \<Rightarrow>
     (case String_js h (or_js (or_js (or_js (field item ''empId'') (field item ''emp_id''))
              (field item ''employee_id'')) (Some (JStr []))) of
        Inl e \<Rightarrow> Inl e
      | Inr empId \<Rightarrow>
     (let nameVal0 = or_js (or_js (field item ''name'') (field item ''equipment_name''))
                       (Some (JStr ''Unknown Equipment''));
          assigneeVal0 = or_js (or_js (field item ''assigneeName'') (field item ''assignee_name''))
                           (Some (JStr []));
          nameVal = (if truthy (field item ''equipment_name'')
                     then field item ''equipment_name'' else nameVal0);
          assigneeVal = (if truthy (field item ''equipment_name'') \<and> truthy (field item ''name'')
                            \<and> \<not> truthy assigneeVal0
                         then field item ''name'' else assigneeVal0)
      in
     (case (if truthy (field item ''id'') then String_js h (field item ''id'')
            else Inr (generateId random36)) of
        Inl e \<Rightarrow> Inl e
      | Inr ident \<Rightarrow>
     (case String_js h nameVal of
        Inl e \<Rightarrow> Inl e
      | Inr name \<Rightarrow>
     (case String_js h assigneeVal of
        Inl e \<Rightarrow> Inl e
      | Inr assigneeName \<Rightarrow>
     (case normalizeEnum h (field item ''status'') ''Available'' of
        Inl e \<Rightarrow> Inl e
      | Inr status \<Rightarrow>
     (case normalizeEnum h (field item ''type'') ''Other'' of
        Inl e \<Rightarrow> Inl e
      | Inr type \<Rightarrow>
     (case String_js h (or_js (field item ''location'') (Some (JStr []))) of
        Inl e \<Rightarrow> Inl e
      | Inr location \<Rightarrow>
     (case String_js h (or_js (field item ''remarks'') (Some (JStr []))) of
        Inl e \<Rightarrow> Inl e
      | Inr remarks \<Rightarrow>
     (case String_js h (or_js (or_js (field item ''service'') (field item ''services''))
              (Some (JStr []))) of
        Inl e \<Rightarrow> Inl e
      | Inr service \<Rightarrow>
     (case String_js h (or_js (field item ''department'') (Some (JStr []))) of
        Inl e \<Rightarrow> Inl e
      | Inr department \<Rightarrow>
          Inr (JObj (assign (own_props item)
            [(''id'', JStr ident),
             (''createdAt'', or_val (field item ''createdAt'') (JStr (iso_text now))),
             (''serialNumber'', JStr serialNumber),
             (''dueDate'', JStr dueDate),
             (''issueDate'', JStr issueDate),
             (''empId'', JStr empId),
             (''name'', JStr name),
             (''assigneeName'', JStr assigneeName),
             (''status'', JStr status),
             (''type'', JStr type),
             (''location'', JStr location),
             (''remarks'', JStr remarks),
             (''service'', JStr service),
             (''department'', JStr department)])))))))))))))))))"

text \<open>
  \<^verbatim>\<open>newItems.map(...)\<close>: the element at index \<open>i\<close> is mapped with the random draw
  \<open>random36 i\<close> and the clock reading \<open>clock i\<close>, which it uses when it has no \<^verbatim>\<open>id\<close> or no
  \<^verbatim>\<open>createdAt\<close>.
\<close>

fun map_items :: "host \<Rightarrow> (nat \<Rightarrow> string) \<Rightarrow> (nat \<Rightarrow> int) \<Rightarrow> nat \<Rightarrow> jsval list
    \<Rightarrow> error + jsval list" where
  "map_items h random36 clock i [] = Inr []"
| "map_items h random36 clock i (item # rest) =
     (case map_item h (random36 i) (clock i) item of
        Inl e \<Rightarrow> Inl e
      | Inr x \<Rightarrow>
          (case map_items h random36 clock (Suc i) rest of
             Inl e \<Rightarrow> Inl e
           | Inr xs \<Rightarrow> Inr (x # xs)))"

text \<open>\<^verbatim>\<open>[...v]\<close>: an array gives its elements, a string its characters; nothing else iterates.\<close>

fun spread_iter :: "jsval \<Rightarrow> error + jsval list" where
  "spread_iter (JArr xs) = Inr xs"
| "spread_iter (JStr s) = Inr (map (\<lambda>c. JStr [c]) s)"
| "spread_iter v = Inl TypeError"

definition importBulk :: "host \<Rightarrow> (nat \<Rightarrow> string) \<Rightarrow> (nat \<Rightarrow> int) \<Rightarrow> stored \<Rightarrow> jsval list
    \<Rightarrow> (error + unit) \<times> stored" where
  "importBulk h random36 clock st newItems =
     (case read_items st of
        Inl e \<Rightarrow> (Inl e, st)
      | Inr currentItems \<Rightarrow>
     (case map_items h random36 clock 0 newItems of
        Inl e \<Rightarrow> (Inl e, st)
      | Inr processed \<Rightarrow>
     (case spread_iter currentItems of
        Inl e \<Rightarrow> (Inl e, st)
      | Inr current \<Rightarrow> (Inr (), Parses (JArr (current @ processed))))))"

section \<open>Dashboard statistics\<close>

text \<open>The members of \<^verbatim>\<open>enum EquipmentStatus\<close> of \<^verbatim>\<open>types\<close> that the dashboard names.\<close>

definition EquipmentStatus_BREAKDOWN :: string where
  "EquipmentStatus_BREAKDOWN = ''Breakdown''"

definition EquipmentStatus_MAINTENANCE :: string where
  "EquipmentStatus_MAINTENANCE = ''Maintenance''"

record stats =
  expired :: nat
  breakdown :: nat
  maintenance :: nat
  byType :: "(string \<times> nat) list"
  total :: nat

text \<open>
  \<^verbatim>\<open>byType[displayType] = (byType[displayType] || 0) + 1\<close> on the counts object, which starts
  empty. Under the label \<^verbatim>\<open>__proto__\<close>, the one display label that names a property the
  object inherits, the read gives the prototype and the write of a string to it changes
  nothing; under any other label the count is created at 1 or incremented.
\<close>

definition count_type :: "string \<Rightarrow> (string \<times> nat) list \<Rightarrow> (string \<times> nat) list" where
  "count_type displayType counts =
     (if displayType = ''__proto__'' then counts
      else AList.update displayType
             ((case map_of counts displayType of None \<Rightarrow> 0 | Some n \<Rightarrow> n) + 1) counts)"

text \<open>The body of \<^verbatim>\<open>data.forEach(item => ...)\<close>, on the counters so far.\<close>

definition count_item :: "host \<Rightarrow> int option \<Rightarrow> jsval \<Rightarrow> stats \<Rightarrow> error + stats" where
  "count_item h thirtyDaysFromNow item s =
     (case get_prop item ''type'' of
        Inl e \<Rightarrow> Inl e
      | Inr ty \<Rightarrow>
     (case (if truthy ty then map_sum id trim (String_js h ty) else Inr ''Other'') of
        Inl e \<Rightarrow> Inl e
      | Inr type \<Rightarrow>
     (case (if truthy (field item ''status'')
            then map_sum id (\<lambda>t. trim (toLowerCase t)) (String_js h (field item ''status''))
            else Inr []) of
        Inl e \<Rightarrow> Inl e
      | Inr status \<Rightarrow>
     (let displayType = toUpperCase (charAt type 0) @ toLowerCase (slice type 1);
          s1 = s\<lparr>byType := count_type displayType (byType s)\<rparr>;
          s2 = (if status = toLowerCase EquipmentStatus_BREAKDOWN
                then s1\<lparr>breakdown := breakdown s1 + 1\<rparr> else s1);
          s3 = (if status = toLowerCase EquipmentStatus_MAINTENANCE
                then s2\<lparr>maintenance := maintenance s2 + 1\<rparr> else s2)
      in if truthy (field item ''dueDate'')
         then (case new_Date h (field item ''dueDate'') of
                 Inl e \<Rightarrow> Inl e
               | Inr due \<Rightarrow>
                   Inr (if due \<noteq> None \<and> date_le due thirtyDaysFromNow
                        then s3\<lparr>expired := expired s3 + 1\<rparr> else s3))
         else Inr s3))))"

fun forEach :: "('a \<Rightarrow> 's \<Rightarrow> error + 's) \<Rightarrow> 'a list \<Rightarrow> 's \<Rightarrow> error + 's" where
  "forEach f [] s = Inr s"
| "forEach f (x # xs) s = (case f x s of Inl e \<Rightarrow> Inl e | Inr s' \<Rightarrow> forEach f xs s')"

text \<open>
  The \<^verbatim>\<open>stats\<close> of the dashboard. \<open>now\<close> and \<open>now'\<close> are the clock at the two \<^verbatim>\<open>new Date()\<close>.
\<close>

definition dashboard_stats :: "host \<Rightarrow> int \<Rightarrow> int \<Rightarrow> jsval list \<Rightarrow> error + stats" where
  "dashboard_stats h now now' data =
     (let thirtyDaysFromNow = setDate h now' (getDate h now + 30)
      in case forEach (count_item h thirtyDaysFromNow) data
              \<lparr>expired = 0, breakdown = 0, maintenance = 0, byType = [], total = 0\<rparr> of
           Inl e \<Rightarrow> Inl e
         | Inr s \<Rightarrow> Inr (s\<lparr>total := length data\<rparr>))"

section \<open>A host for examples\<close>

text \<open>
  A browser in the UTC time zone; the engine-defined answers are never asked for in the
  examples and are fixed arbitrarily.
\<close>

definition utc_host :: host where
  "utc_host = \<lparr>number_text = (\<lambda>r. ''NaN''), date_text = (\<lambda>s. None),
     tza_utc = (\<lambda>t. 0), tza_local = (\<lambda>t. 0)\<rparr>"

section \<open>Notions used to state the properties\<close>

text \<open>
  The values that \<^verbatim>\<open>String(...)\<close> converts without throwing: everything but an object with
  an own \<^verbatim>\<open>toString\<close> property and an array that holds, at any depth of arrays, such an
  object. \<open>string_ok\<close> is the same for a value that may be \<^verbatim>\<open>undefined\<close>.
\<close>

fun stringifiable :: "jsval \<Rightarrow> bool" where
  "stringifiable (JObj al) = (map_of al ''toString'' = None)"
| "stringifiable (JArr xs) = list_all stringifiable xs"
| "stringifiable v = True"

fun string_ok :: "jsval option \<Rightarrow> bool" where
  "string_ok None = True"
| "string_ok (Some v) = stringifiable v"

text \<open>The string that \<^verbatim>\<open>String(v)\<close> returns, where it returns.\<close>

definition text_js :: "host \<Rightarrow> jsval option \<Rightarrow> string" where
  "text_js h v = (case String_js h v of Inr s \<Rightarrow> s | Inl e \<Rightarrow> [])"

text \<open>The time value of \<^verbatim>\<open>new Date(v)\<close>, where that does not throw.\<close>

definition date_value :: "host \<Rightarrow> jsval option \<Rightarrow> int option" where
  "date_value h v = (case new_Date h v of Inr d \<Rightarrow> d | Inl e \<Rightarrow> None)"

text \<open>
  A record as the program's types have it, as far as the operations depend on it: an element
  that is not \<^verbatim>\<open>null\<close>, and whose property values all have a string form.
\<close>

definition plain_record :: "jsval \<Rightarrow> bool" where
  "plain_record item =
     (case item of
        JNull \<Rightarrow> False
      | JObj al \<Rightarrow> list_all (\<lambda>kv. stringifiable (snd kv)) al
      | _ \<Rightarrow> True)"

text \<open>
  A stored record as \<^verbatim>\<open>update\<close> and \<^verbatim>\<open>delete\<close> need it: an element that is not \<^verbatim>\<open>null\<close>
  and whose \<^verbatim>\<open>id\<close>, where it has one, has a string form.
\<close>

definition keyed :: "jsval \<Rightarrow> bool" where
  "keyed item = (item \<noteq> JNull \<and> string_ok (field item ''id''))"

text \<open>The string form of a stored record's \<^verbatim>\<open>id\<close>, as \<^verbatim>\<open>update\<close> and \<^verbatim>\<open>delete\<close> compare it.\<close>

definition id_text :: "host \<Rightarrow> jsval \<Rightarrow> string" where
  "id_text h item = text_js h (field item ''id'')"

text \<open>The records that an operation finds in the store: none when nothing is stored.\<close>

definition stored_items :: "stored \<Rightarrow> jsval list" where
  "stored_items st = (case read_items st of Inr (JArr items) \<Rightarrow> items | _ \<Rightarrow> [])"

text \<open>The identifiers of the stored records, in order.\<close>

definition stored_ids :: "host \<Rightarrow> stored \<Rightarrow> string list" where
  "stored_ids h st = map (id_text h) (stored_items st)"

text \<open>The property \<open>k\<close> of the record that the mapper makes of an item.\<close>

definition mapped_field :: "host \<Rightarrow> string \<Rightarrow> int \<Rightarrow> jsval \<Rightarrow> string \<Rightarrow> jsval option" where
  "mapped_field h random36 now item k =
     (case map_item h random36 now item of Inr x \<Rightarrow> field x k | Inl e \<Rightarrow> None)"

text \<open>A random source and a clock for examples: every draw and every reading is the same.\<close>

definition example_random :: "nat \<Rightarrow> string" where
  "example_random i = ''0.4fzyo82mvyr''"

definition example_clock :: "nat \<Rightarrow> int" where
  "example_clock i = 1704067200000"

text \<open>
  Text of ASCII characters, on which \<^verbatim>\<open>toUpperCase\<close>, \<^verbatim>\<open>toLowerCase\<close> and \<^verbatim>\<open>trim\<close> are as
  defined above.
\<close>

definition ascii :: "string \<Rightarrow> bool" where
  "ascii s = list_all (\<lambda>c. (of_char c :: nat) < 128) s"

text \<open>
  A record that the dashboard counts as due by a horizon: its \<^verbatim>\<open>dueDate\<close> is truthy and
  makes a valid date that is less than or equal to the horizon.
\<close>

definition due_by :: "host \<Rightarrow> int option \<Rightarrow> jsval \<Rightarrow> bool" where
  "due_by h horizon item =
     (truthy (field item ''dueDate'') \<and> date_le (date_value h (field item ''dueDate'')) horizon)"

section \<open>Calendar arithmetic\<close>

lemma div_bounds: "0 < k \<Longrightarrow> k * (x div k) \<le> x \<and> x < k * (x div k) + k" for x k :: int
  using mult_div_mod_eq [of k x] pos_mod_sign [of k x] pos_mod_bound [of k x] by linarith

lemma div_step:
  fixes x k :: int
  assumes "0 < k"
  shows "(x + 1) div k - x div k = (if (x + 1) mod k = 0 then 1 else 0)"
proof -
  have x: "x = k * (x div k) + x mod k" by simp
  have r: "0 \<le> x mod k" "x mod k < k" using assms by simp_all
  show ?thesis
  proof (cases "x mod k + 1 < k")
    case True
    have e: "x + 1 = k * (x div k) + (x mod k + 1)" using x by linarith
    have "(x + 1) div k = x div k"
      using int_div_pos_eq [OF e _ True] r by simp
    moreover have "(x + 1) mod k = x mod k + 1"
      using int_mod_pos_eq [OF e _ True] r by simp
    ultimately show ?thesis using r by simp
  next
    case False
    then have k: "x mod k + 1 = k" using r by linarith
    have "k * (x div k + 1) = k * (x div k) + k" by (simp add: algebra_simps)
    then have e: "x + 1 = k * (x div k + 1) + 0" using x k by linarith
    have "(x + 1) div k = x div k + 1"
      using int_div_pos_eq [OF e _ assms] by simp
    moreover have "(x + 1) mod k = 0"
      using int_mod_pos_eq [OF e _ assms] by simp
    ultimately show ?thesis by simp
  qed
qed

lemma leap_mod:
  "(y - 1968) mod 4 = 0 \<longleftrightarrow> y mod 4 = 0"
  "(y - 1900) mod 100 = 0 \<longleftrightarrow> y mod 100 = 0"
  "(y - 1600) mod 400 = 0 \<longleftrightarrow> y mod 400 = 0" for y :: int
  by (simp_all add: mod_diff_eq [symmetric] del: mod_diff_eq)

lemma leap_chain: "y mod 400 = 0 \<Longrightarrow> y mod 100 = 0" "y mod 100 = 0 \<Longrightarrow> y mod 4 = 0" for y :: int
  by (auto simp: mod_eq_0_iff_dvd intro: dvd_trans [of 100 400] dvd_trans [of 4 100])

lemma DayFromYear_step: "DayFromYear (y + 1) - DayFromYear y = DaysInYear y"
proof -
  define A where "A = (y - 1968) div 4 - (y - 1969) div 4"
  define B where "B = (y - 1900) div 100 - (y - 1901) div 100"
  define C where "C = (y - 1600) div 400 - (y - 1601) div 400"
  have A: "A = (if y mod 4 = 0 then 1 else 0)"
    using div_step [of 4 "y - 1969"] leap_mod(1) [of y] by (simp add: A_def)
  have B: "B = (if y mod 100 = 0 then 1 else 0)"
    using div_step [of 100 "y - 1901"] leap_mod(2) [of y] by (simp add: B_def)
  have C: "C = (if y mod 400 = 0 then 1 else 0)"
    using div_step [of 400 "y - 1601"] leap_mod(3) [of y] by (simp add: C_def)
  have D: "DayFromYear (y + 1) - DayFromYear y = 365 + A - B + C"
    by (simp add: DayFromYear_def A_def B_def C_def)
  have E: "365 + A - B + C = DaysInYear y"
  proof (cases "y mod 4 = 0")
    case False
    with leap_chain [of y] have "y mod 100 \<noteq> 0" "y mod 400 \<noteq> 0" by auto
    with False show ?thesis by (simp add: A B C DaysInYear_def)
  next
    case y4: True
    show ?thesis
    proof (cases "y mod 100 = 0")
      case False
      with leap_chain(1) [of y] have "y mod 400 \<noteq> 0" by auto
      with False y4 show ?thesis by (simp add: A B C DaysInYear_def)
    next
      case True
      with y4 show ?thesis by (simp add: A B C DaysInYear_def)
    qed
  qed
  show ?thesis using D E by simp
qed

lemma DayFromYear_upper: "DayFromYear z * 400 \<le> 146097 * (z - 1970) + 589"
  using div_bounds [of 4 "z - 1969"] div_bounds [of 100 "z - 1901"] div_bounds [of 400 "z - 1601"]
  unfolding DayFromYear_def by simp

lemma DayFromYear_lower: "146097 * (z - 1970) - 506 \<le> DayFromYear z * 400"
  using div_bounds [of 4 "z - 1969"] div_bounds [of 100 "z - 1901"] div_bounds [of 400 "z - 1601"]
  unfolding DayFromYear_def by simp

lemma YearFromDay_spec: "DayFromYear (YearFromDay d) \<le> d \<and> d < DayFromYear (YearFromDay d + 1)"
proof -
  define y where "y = 1970 + (d * 400) div 146097"
  have y: "146097 * (y - 1970) \<le> d * 400" "d * 400 < 146097 * (y - 1970) + 146097"
    using div_bounds [of 146097 "d * 400"] by (simp_all add: y_def)
  have eq: "YearFromDay d = (if d < DayFromYear y then y - 1 else if DayFromYear (y + 1) \<le> d then y + 1 else y)"
    by (simp add: YearFromDay_def y_def Let_def)
  consider (a) "d < DayFromYear y" | (b) "DayFromYear y \<le> d" "DayFromYear (y + 1) \<le> d"
    | (c) "DayFromYear y \<le> d" "d < DayFromYear (y + 1)" by linarith
  then show ?thesis
  proof cases
    case a
    have "DayFromYear (y - 1) \<le> d" using DayFromYear_upper [of "y - 1"] y by (simp add: algebra_simps)
    with a eq show ?thesis by simp
  next
    case b
    have "d < DayFromYear (y + 1 + 1)" using DayFromYear_lower [of "y + 1 + 1"] y by (simp add: algebra_simps)
    with b eq show ?thesis by simp
  next
    case c
    with eq show ?thesis by simp
  qed
qed


lemma DayWithinYear_bounds: "0 \<le> DayWithinYear t \<and> DayWithinYear t < DaysInYear (YearFromTime t)"
  using YearFromDay_spec [of "Day t"] DayFromYear_step [of "YearFromTime t"]
  by (simp add: DayWithinYear_def YearFromTime_def)

lemma MonthFromTime_bounds: "0 \<le> MonthFromTime t \<and> MonthFromTime t \<le> 11"
  by (simp add: MonthFromTime_def Let_def)

lemma DaysInYear_cases: "DaysInYear y = 365 \<or> DaysInYear y = 366"
  by (simp add: DaysInYear_def)

lemma month_date_roundtrip:
  "month_start (DaysInYear (YearFromTime t)) (MonthFromTime t) + DateFromTime t - 1 = DayWithinYear t"
proof -
  define d where "d = DayWithinYear t"
  define l where "l = InLeapYear t"
  have l: "l = 0 \<or> l = 1" by (simp add: l_def InLeapYear_def)
  have dn: "(DaysInYear (YearFromTime t) = 366) = (l = 1)"
    by (simp add: l_def InLeapYear_def)
  have d: "0 \<le> d" "d < 365 + l"
    using DayWithinYear_bounds [of t] DaysInYear_cases [of "YearFromTime t"]
    by (auto simp add: d_def l_def InLeapYear_def)
  have M: "MonthFromTime t =
      (if d < 31 then 0 else if d < 59 + l then 1 else if d < 90 + l then 2
       else if d < 120 + l then 3 else if d < 151 + l then 4 else if d < 181 + l then 5
       else if d < 212 + l then 6 else if d < 243 + l then 7 else if d < 273 + l then 8
       else if d < 304 + l then 9 else if d < 334 + l then 10 else 11)"
    unfolding MonthFromTime_def Let_def d_def l_def by (rule refl)
  from d consider (m0) "0 \<le> d" "d < 31" | (m1) "31 \<le> d" "d < 59 + l" | (m2) "59 + l \<le> d" "d < 90 + l" | (m3) "90 + l \<le> d" "d < 120 + l" | (m4) "120 + l \<le> d" "d < 151 + l" | (m5) "151 + l \<le> d" "d < 181 + l" | (m6) "181 + l \<le> d" "d < 212 + l" | (m7) "212 + l \<le> d" "d < 243 + l" | (m8) "243 + l \<le> d" "d < 273 + l" | (m9) "273 + l \<le> d" "d < 304 + l" | (m10) "304 + l \<le> d" "d < 334 + l" | (m11) "334 + l \<le> d" "d < 365 + l"
    by linarith
  then show ?thesis
  proof cases
    case m0
    then have "MonthFromTime t = 0" using l by (auto simp add: M)
    with m0 l show ?thesis by (auto simp add: DateFromTime_def month_start_def Let_def d_def [symmetric] l_def [symmetric] dn)
  next
    case m1
    then have "MonthFromTime t = 1" using l by (auto simp add: M)
    with m1 l show ?thesis by (auto simp add: DateFromTime_def month_start_def Let_def d_def [symmetric] l_def [symmetric] dn)
  next
    case m2
    then have "MonthFromTime t = 2" using l by (auto simp add: M)
    with m2 l show ?thesis by (auto simp add: DateFromTime_def month_start_def Let_def d_def [symmetric] l_def [symmetric] dn)
  next
    case m3
    then have "MonthFromTime t = 3" using l by (auto simp add: M)
    with m3 l show ?thesis by (auto simp add: DateFromTime_def month_start_def Let_def d_def [symmetric] l_def [symmetric] dn)
  next
    case m4
    then have "MonthFromTime t = 4" using l by (auto simp add: M)
    with m4 l show ?thesis by (auto simp add: DateFromTime_def month_start_def Let_def d_def [symmetric] l_def [symmetric] dn)
  next
    case m5
    then have "MonthFromTime t = 5" using l by (auto simp add: M)
    with m5 l show ?thesis by (auto simp add: DateFromTime_def month_start_def Let_def d_def [symmetric] l_def [symmetric] dn)
  next
    case m6
    then have "MonthFromTime t = 6" using l by (auto simp add: M)
    with m6 l show ?thesis by (auto simp add: DateFromTime_def month_start_def Let_def d_def [symmetric] l_def [symmetric] dn)
  next
    case m7
    then have "MonthFromTime t = 7" using l by (auto simp add: M)
    with m7 l show ?thesis by (auto simp add: DateFromTime_def month_start_def Let_def d_def [symmetric] l_def [symmetric] dn)
  next
    case m8
    then have "MonthFromTime t = 8" using l by (auto simp add: M)
    with m8 l show ?thesis by (auto simp add: DateFromTime_def month_start_def Let_def d_def [symmetric] l_def [symmetric] dn)
  next
    case m9
    then have "MonthFromTime t = 9" using l by (auto simp add: M)
    with m9 l show ?thesis by (auto simp add: DateFromTime_def month_start_def Let_def d_def [symmetric] l_def [symmetric] dn)
  next
    case m10
    then have "MonthFromTime t = 10" using l by (auto simp add: M)
    with m10 l show ?thesis by (auto simp add: DateFromTime_def month_start_def Let_def d_def [symmetric] l_def [symmetric] dn)
  next
    case m11
    then have "MonthFromTime t = 11" using l by (auto simp add: M)
    with m11 l show ?thesis by (auto simp add: DateFromTime_def month_start_def Let_def d_def [symmetric] l_def [symmetric] dn)
  qed
qed

lemma MakeDay_roundtrip: "MakeDay (YearFromTime t) (MonthFromTime t) (DateFromTime t) = Day t"
proof -
  have "MonthFromTime t div 12 = 0" "MonthFromTime t mod 12 = MonthFromTime t"
    using MonthFromTime_bounds [of t] by simp_all
  then show ?thesis
    using month_date_roundtrip [of t] by (simp add: MakeDay_def DayWithinYear_def Let_def)
qed


lemma digit_val_digit_char: "n < 10 \<Longrightarrow> digit_val (digit_char n) = Some n"
proof -
  assume "n < 10"
  then have "n \<in> {0, 1, 2, 3, 4, 5, 6, 7, 8, 9}" by auto
  then show ?thesis by (auto simp add: digit_val_def digit_char_def)
qed

lemma read_digits_pad:
  "read_digits k acc (pad k n @ r) = Some (acc * 10 ^ k + n mod 10 ^ k, r)"
proof (induction k arbitrary: acc)
  case 0
  then show ?case by simp
next
  case (Suc k)
  have "n mod (10 ^ k * 10) = 10 ^ k * (n div 10 ^ k mod 10) + n mod 10 ^ k"
    by (rule mod_mult2_eq)
  then show ?case
    using Suc [of "acc * 10 + n div 10 ^ k mod 10"]
    by (simp add: digit_val_digit_char algebra_simps)
qed

lemma read_digits_pad0: "n < 10 ^ k \<Longrightarrow> read_digits k 0 (pad k n @ r) = Some (n, r)"
  by (simp add: read_digits_pad)

lemma time_fields:
  "MakeTime (HourFromTime t) (MinFromTime t) (SecFromTime t) (msFromTime t) = TimeWithinDay t"
proof -
  have a: "t mod (1000 * 60) = 1000 * (t div 1000 mod 60) + t mod 1000"
    by (rule zmod_zmult2_eq) simp
  have b: "t mod (60000 * 60) = 60000 * (t div 60000 mod 60) + t mod 60000"
    by (rule zmod_zmult2_eq) simp
  have c: "t mod (3600000 * 24) = 3600000 * (t div 3600000 mod 24) + t mod 3600000"
    by (rule zmod_zmult2_eq) simp
  show ?thesis
    using a b c
    by (simp add: MakeTime_def HourFromTime_def MinFromTime_def SecFromTime_def msFromTime_def
        TimeWithinDay_def msPerDay_def)
qed

lemma time_field_bounds:
  "0 \<le> HourFromTime t" "HourFromTime t < 24" "0 \<le> MinFromTime t" "MinFromTime t < 60"
  "0 \<le> SecFromTime t" "SecFromTime t < 60" "0 \<le> msFromTime t" "msFromTime t < 1000"
  by (simp_all add: HourFromTime_def MinFromTime_def SecFromTime_def msFromTime_def)

lemma MakeDate_Day: "MakeDate (Day t) (TimeWithinDay t) = t"
  by (simp add: MakeDate_def Day_def TimeWithinDay_def)


lemma DateFromTime_bounds:
  "1 \<le> DateFromTime t \<and>
   DateFromTime t \<le> DaysInMonth (DaysInYear (YearFromTime t)) (MonthFromTime t)"
proof -
  define d where "d = DayWithinYear t"
  define l where "l = InLeapYear t"
  have l: "l = 0 \<or> l = 1" by (simp add: l_def InLeapYear_def)
  have dn: "(DaysInYear (YearFromTime t) = 366) = (l = 1)"
    by (simp add: l_def InLeapYear_def)
  have dn': "DaysInYear (YearFromTime t) = 365 + l"
    using DaysInYear_cases [of "YearFromTime t"] by (auto simp add: l_def InLeapYear_def)
  have d: "0 \<le> d" "d < 365 + l"
    using DayWithinYear_bounds [of t] DaysInYear_cases [of "YearFromTime t"]
    by (auto simp add: d_def l_def InLeapYear_def)
  have M: "MonthFromTime t =
      (if d < 31 then 0 else if d < 59 + l then 1 else if d < 90 + l then 2
       else if d < 120 + l then 3 else if d < 151 + l then 4 else if d < 181 + l then 5
       else if d < 212 + l then 6 else if d < 243 + l then 7 else if d < 273 + l then 8
       else if d < 304 + l then 9 else if d < 334 + l then 10 else 11)"
    unfolding MonthFromTime_def Let_def d_def l_def by (rule refl)
  from d consider (m0) "0 \<le> d" "d < 31" | (m1) "31 \<le> d" "d < 59 + l" | (m2) "59 + l \<le> d" "d < 90 + l" | (m3) "90 + l \<le> d" "d < 120 + l" | (m4) "120 + l \<le> d" "d < 151 + l" | (m5) "151 + l \<le> d" "d < 181 + l" | (m6) "181 + l \<le> d" "d < 212 + l" | (m7) "212 + l \<le> d" "d < 243 + l" | (m8) "243 + l \<le> d" "d < 273 + l" | (m9) "273 + l \<le> d" "d < 304 + l" | (m10) "304 + l \<le> d" "d < 334 + l" | (m11) "334 + l \<le> d" "d < 365 + l"
    by linarith
  then show ?thesis
  proof cases
    case m0
    then have "MonthFromTime t = 0" using l by (auto simp add: M)
    with m0 l show ?thesis by (auto simp add: DateFromTime_def DaysInMonth_def month_start_def Let_def d_def [symmetric] l_def [symmetric] dn')
  next
    case m1
    then have "MonthFromTime t = 1" using l by (auto simp add: M)
    with m1 l show ?thesis by (auto simp add: DateFromTime_def DaysInMonth_def month_start_def Let_def d_def [symmetric] l_def [symmetric] dn')
  next
    case m2
    then have "MonthFromTime t = 2" using l by (auto simp add: M)
    with m2 l show ?thesis by (auto simp add: DateFromTime_def DaysInMonth_def month_start_def Let_def d_def [symmetric] l_def [symmetric] dn')
  next
    case m3
    then have "MonthFromTime t = 3" using l by (auto simp add: M)
    with m3 l show ?thesis by (auto simp add: DateFromTime_def DaysInMonth_def month_start_def Let_def d_def [symmetric] l_def [symmetric] dn')
  next
    case m4
    then have "MonthFromTime t = 4" using l by (auto simp add: M)
    with m4 l show ?thesis by (auto simp add: DateFromTime_def DaysInMonth_def month_start_def Let_def d_def [symmetric] l_def [symmetric] dn')
  next
    case m5
    then have "MonthFromTime t = 5" using l by (auto simp add: M)
    with m5 l show ?thesis by (auto simp add: DateFromTime_def DaysInMonth_def month_start_def Let_def d_def [symmetric] l_def [symmetric] dn')
  next
    case m6
    then have "MonthFromTime t = 6" using l by (auto simp add: M)
    with m6 l show ?thesis by (auto simp add: DateFromTime_def DaysInMonth_def month_start_def Let_def d_def [symmetric] l_def [symmetric] dn')
  next
    case m7
    then have "MonthFromTime t = 7" using l by (auto simp add: M)
    with m7 l show ?thesis by (auto simp add: DateFromTime_def DaysInMonth_def month_start_def Let_def d_def [symmetric] l_def [symmetric] dn')
  next
    case m8
    then have "MonthFromTime t = 8" using l by (auto simp add: M)
    with m8 l show ?thesis by (auto simp add: DateFromTime_def DaysInMonth_def month_start_def Let_def d_def [symmetric] l_def [symmetric] dn')
  next
    case m9
    then have "MonthFromTime t = 9" using l by (auto simp add: M)
    with m9 l show ?thesis by (auto simp add: DateFromTime_def DaysInMonth_def month_start_def Let_def d_def [symmetric] l_def [symmetric] dn')
  next
    case m10
    then have "MonthFromTime t = 10" using l by (auto simp add: M)
    with m10 l show ?thesis by (auto simp add: DateFromTime_def DaysInMonth_def month_start_def Let_def d_def [symmetric] l_def [symmetric] dn')
  next
    case m11
    then have "MonthFromTime t = 11" using l by (auto simp add: M)
    with m11 l show ?thesis by (auto simp add: DateFromTime_def DaysInMonth_def month_start_def Let_def d_def [symmetric] l_def [symmetric] dn')
  qed
qed

lemma Day_bounds:
  assumes "\<bar>t\<bar> \<le> 8640000000000000"
  shows "- 100000000 \<le> Day t \<and> Day t \<le> 100000000"
proof -
  have b: "86400000 * Day t \<le> t" "t < 86400000 * Day t + 86400000"
    using div_bounds [of 86400000 t] by (simp_all add: Day_def msPerDay_def)
  have "86400000 * Day t \<le> 86400000 * 100000000" using b(1) assms by simp
  then have hi: "Day t \<le> 100000000" by (simp only: mult_le_cancel_left_pos zero_less_numeral)
  have "86400000 * (- 100000000 - 1) < 86400000 * Day t" using b(2) assms by simp
  then have "- 100000000 - 1 < Day t" by (simp only: mult_less_cancel_left_pos zero_less_numeral)
  then show ?thesis using hi by simp
qed

lemma YearFromTime_bounds:
  assumes "\<bar>t\<bar> \<le> 8640000000000000"
  shows "- 271821 \<le> YearFromTime t \<and> YearFromTime t \<le> 275760"
proof -
  define y where "y = YearFromTime t"
  have d: "- 100000000 \<le> Day t" "Day t \<le> 100000000" using Day_bounds [OF assms] by simp_all
  have s: "DayFromYear y \<le> Day t" "Day t < DayFromYear (y + 1)"
    using YearFromDay_spec [of "Day t"] by (simp_all add: y_def YearFromTime_def)
  have "146097 * (y - 1970) - 506 \<le> 40000000000"
    using DayFromYear_lower [of y] s(1) d(2) by simp
  then have hi: "y \<le> 275760" by simp
  have "- 40000000000 < 146097 * (y + 1 - 1970) + 589"
    using DayFromYear_upper [of "y + 1"] s(2) d(1) by simp
  then have lo: "- 271821 \<le> y" by simp
  show ?thesis using lo hi by (simp add: y_def)
qed


lemma digit_char_not_sign: "n < 10 \<Longrightarrow> digit_char n \<noteq> CHR ''+'' \<and> digit_char n \<noteq> CHR ''-''"
proof -
  assume "n < 10"
  then have "n \<in> {0, 1, 2, 3, 4, 5, 6, 7, 8, 9}" by auto
  then show ?thesis by (auto simp add: digit_char_def)
qed

lemma pad_4: "pad 4 n = digit_char (n div 1000 mod 10) # pad 3 n"
proof -
  have "pad (Suc 3) n = digit_char (n div 10 ^ 3 mod 10) # pad 3 n" by (rule pad.simps)
  moreover have "Suc 3 = 4" "(10::nat) ^ 3 = 1000" by simp_all
  ultimately show ?thesis by simp
qed

lemma nat_lt: "0 \<le> x \<Longrightarrow> x < int k \<Longrightarrow> nat x < k"
  by linarith

lemma nat_le: "x \<le> int k \<Longrightarrow> nat x \<le> k"
  by linarith

lemma nat_ge: "0 \<le> x \<Longrightarrow> int k \<le> x \<Longrightarrow> k \<le> nat x"
  by linarith

lemma read_year_text:
  assumes "- 1000000 < y" "y < 1000000"
  shows "read_year (year_text y @ r) = Some (y, r)"
proof (cases "0 \<le> y \<and> y \<le> 9999")
  case True
  then have n: "nat y < 10 ^ 4" by (intro nat_lt) simp_all
  have "read_year (pad 4 (nat y) @ r) =
      (case read_digits 4 0 (pad 4 (nat y) @ r) of None \<Rightarrow> None | Some (n, r') \<Rightarrow> Some (int n, r'))"
    using digit_char_not_sign [of "nat y div 1000 mod 10"] by (simp add: pad_4)
  also have "\<dots> = Some (y, r)"
    using True by (simp add: read_digits_pad0 [OF n])
  finally show ?thesis using True by (simp add: year_text_def)
next
  case False
  then have "y < 0 \<or> 9999 < y" by linarith
  then show ?thesis
  proof
    assume neg: "y < 0"
    then have n: "nat (- y) < 10 ^ 6" using assms by (intro nat_lt) simp_all
    have "nat (- y) \<noteq> 0" using neg by simp
    then show ?thesis using neg by (simp add: year_text_def read_digits_pad0 [OF n])
  next
    assume pos: "9999 < y"
    then have n: "nat y < 10 ^ 6" using assms by (intro nat_lt) simp_all
    show ?thesis using pos by (simp add: year_text_def read_digits_pad0 [OF n])
  qed
qed

lemma DaysInMonth_le: "DaysInMonth (DaysInYear y) m \<le> 31"
  by (simp add: DaysInMonth_def)

lemma read_date_text:
  assumes "\<bar>t\<bar> \<le> 8640000000000000"
  shows "read_date (year_text (YearFromTime t) @ CHR ''-'' # pad 2 (nat (MonthFromTime t + 1)) @
           CHR ''-'' # pad 2 (nat (DateFromTime t)) @ r) = Some (Day t, r)"
proof -
  have y: "- 1000000 < YearFromTime t" "YearFromTime t < 1000000"
    using YearFromTime_bounds [OF assms] by simp_all
  have m: "0 \<le> MonthFromTime t" "MonthFromTime t \<le> 11" using MonthFromTime_bounds [of t] by simp_all
  have d: "1 \<le> DateFromTime t"
    "DateFromTime t \<le> DaysInMonth (DaysInYear (YearFromTime t)) (MonthFromTime t)"
    using DateFromTime_bounds [of t] by simp_all
  have d31: "DateFromTime t \<le> 31" using d(2) DaysInMonth_le [of "YearFromTime t" "MonthFromTime t"] by linarith
  define mm where "mm = nat (MonthFromTime t + 1)"
  define dd where "dd = nat (DateFromTime t)"
  have mm1: "int mm = MonthFromTime t + 1" using m by (simp add: mm_def)
  have mm: "1 \<le> mm" "mm \<le> 12" "mm < 10 ^ 2" using mm1 m by simp_all
  have dd1: "int dd = DateFromTime t" using d(1) by (simp add: dd_def)
  have dd: "1 \<le> dd" "dd < 10 ^ 2" using dd1 d(1) d31 by simp_all
  have "read_date (year_text (YearFromTime t) @ CHR ''-'' # pad 2 mm @ CHR ''-'' # pad 2 dd @ r)
      = Some (Day t, r)"
    using d(2) mm(1,2) dd(1)
    by (simp add: read_date_def read_year_text [OF y] read_digits_pad0 [OF mm(3)]
        read_digits_pad0 [OF dd(2)] mm1 dd1 MakeDay_roundtrip)
  then show ?thesis by (simp add: mm_def dd_def)
qed

lemma read_time_text:
  "read_time (CHR ''T'' # pad 2 (nat (HourFromTime t)) @ CHR '':'' # pad 2 (nat (MinFromTime t)) @
     CHR '':'' # pad 2 (nat (SecFromTime t)) @ CHR ''.'' # pad 3 (nat (msFromTime t)) @ ''Z'')
   = Some (TimeWithinDay t)"
proof -
  note b = time_field_bounds [of t]
  define hh where "hh = nat (HourFromTime t)"
  define mi where "mi = nat (MinFromTime t)"
  define ss where "ss = nat (SecFromTime t)"
  define ms where "ms = nat (msFromTime t)"
  have hh1: "int hh = HourFromTime t" using b(1) by (simp add: hh_def)
  have hh: "hh \<le> 23" "hh < 10 ^ 2" using hh1 b(2) by simp_all
  have mi1: "int mi = MinFromTime t" using b(3) by (simp add: mi_def)
  have mi: "mi \<le> 59" "mi < 10 ^ 2" using mi1 b(4) by simp_all
  have ss1: "int ss = SecFromTime t" using b(5) by (simp add: ss_def)
  have ss: "ss \<le> 59" "ss < 10 ^ 2" using ss1 b(6) by simp_all
  have ms1: "int ms = msFromTime t" using b(7) by (simp add: ms_def)
  have ms: "ms < 10 ^ 3" using ms1 b(8) by simp
  have "read_time (CHR ''T'' # pad 2 hh @ CHR '':'' # pad 2 mi @
     CHR '':'' # pad 2 ss @ CHR ''.'' # pad 3 ms @ ''Z'') = Some (TimeWithinDay t)"
    using hh(1) mi(1) ss(1)
    by (simp add: read_time_def read_digits_pad0 [OF hh(2)] read_digits_pad0 [OF mi(2)]
        read_digits_pad0 [OF ss(2)] read_digits_pad0 [OF ms] hh1 mi1 ss1 ms1 time_fields)
  then show ?thesis by (simp add: hh_def mi_def ss_def ms_def)
qed


lemma iso_parse_iso_text:
  assumes "\<bar>t\<bar> \<le> 8640000000000000"
  shows "iso_parse (iso_text t) = Some t"
  by (simp add: iso_parse_def iso_text_def read_date_text [OF assms] read_time_text MakeDate_Day)

lemma iso_text_not_empty: "iso_text t \<noteq> []"
  by (simp add: iso_text_def)

lemma Date_parse_iso_text:
  assumes "\<bar>t\<bar> \<le> 8640000000000000"
  shows "Date_parse h (iso_text t) = Some t"
  using assms by (simp add: Date_parse_def iso_parse_iso_text iso_text_not_empty TimeClip_def)

section \<open>String conversion\<close>

lemma collect_ok:
  "\<forall>x\<in>set xs. \<exists>y. x = Inr y \<Longrightarrow> \<exists>ys. collect xs = Inr ys"
  by (induction xs) auto

lemma collect_error:
  "collect xs = Inl e \<Longrightarrow> Inl e \<in> set xs"
  by (induction xs) (auto split: sum.splits)

lemma toString_ok: "stringifiable v \<Longrightarrow> \<exists>s. toString h v = Inr s"
proof (induction v)
  case (JArr xs)
  have "\<forall>r\<in>set (map (\<lambda>x. case x of JNull \<Rightarrow> Inr [] | _ \<Rightarrow> toString h x) xs). \<exists>y. r = Inr y"
  proof
    fix r assume "r \<in> set (map (\<lambda>x. case x of JNull \<Rightarrow> Inr [] | _ \<Rightarrow> toString h x) xs)"
    then obtain x where x: "x \<in> set xs" "r = (case x of JNull \<Rightarrow> Inr [] | _ \<Rightarrow> toString h x)"
      by auto
    from JArr.prems x(1) have "stringifiable x" by (simp add: list_all_iff)
    with JArr.IH [OF x(1)] obtain s where "toString h x = Inr s" by blast
    with x(2) show "\<exists>y. r = Inr y" by (cases x) simp_all
  qed
  from collect_ok [OF this] show ?case by auto
qed (auto split: option.splits)

lemma toString_error: "toString h v = Inl e \<Longrightarrow> e = TypeError"
proof (induction v arbitrary: e)
  case (JArr xs)
  then have "collect (map (\<lambda>x. case x of JNull \<Rightarrow> Inr [] | _ \<Rightarrow> toString h x) xs) = Inl e"
    by (auto split: sum.splits)
  from collect_error [OF this] obtain x where
    x: "x \<in> set xs" "(case x of JNull \<Rightarrow> Inr [] | _ \<Rightarrow> toString h x) = Inl e"
    by auto
  from x(2) have "toString h x = Inl e" by (cases x) simp_all
  with JArr.IH [OF x(1)] show ?case by blast
qed (auto split: option.splits)

lemma String_js_ok: "string_ok v \<Longrightarrow> String_js h v = Inr (text_js h v)"
proof (cases v)
  case None
  then show ?thesis by (simp add: String_js_def text_js_def)
next
  case (Some x)
  assume "string_ok v"
  with Some toString_ok [of x h] obtain s where "toString h x = Inr s" by auto
  with Some show ?thesis by (simp add: String_js_def text_js_def)
qed

lemma String_js_error: "String_js h v = Inl e \<Longrightarrow> e = TypeError"
  by (cases v) (auto simp add: String_js_def dest: toString_error)

lemma string_ok_or_js: "string_ok a \<Longrightarrow> string_ok b \<Longrightarrow> string_ok (or_js a b)"
  by (simp add: or_js_def)

lemma string_ok_JStr: "string_ok (Some (JStr s))"
  by simp

lemma plain_not_null: "plain_record item \<Longrightarrow> item \<noteq> JNull"
  by (auto simp add: plain_record_def)

lemma field_JObj: "field (JObj al) k = map_of al k"
  by (simp add: field_def)

lemma plain_field: "plain_record item \<Longrightarrow> string_ok (field item k)"
proof (cases item)
  case (JObj al)
  assume "plain_record item"
  with JObj have a: "\<forall>kv\<in>set al. stringifiable (snd kv)"
    by (simp add: plain_record_def list_all_iff)
  show ?thesis
  proof (cases "map_of al k")
    case None
    with JObj show ?thesis by (simp add: field_JObj)
  next
    case (Some v)
    then have "(k, v) \<in> set al" by (rule map_of_SomeD)
    with a have "stringifiable v" by auto
    with JObj Some show ?thesis by (simp add: field_JObj)
  qed
qed (simp_all add: field_def)

lemma get_prop_not_null: "item \<noteq> JNull \<Longrightarrow> get_prop item k = Inr (field item k)"
  by (cases item) (simp_all add: field_def)

lemma new_Date_ok: "string_ok v \<Longrightarrow> new_Date h v = Inr (date_value h v)"
proof (cases v)
  case None
  then show ?thesis by (simp add: new_Date_def date_value_def)
next
  case (Some x)
  assume "string_ok v"
  with Some toString_ok [of x h] obtain s where "toString h x = Inr s" by auto
  with Some show ?thesis by (cases x) (simp_all add: new_Date_def date_value_def)
qed

lemma new_Date_error: "new_Date h v = Inl e \<Longrightarrow> e = TypeError"
proof (cases v)
  case None
  assume "new_Date h v = Inl e"
  with None show ?thesis by (simp add: new_Date_def)
next
  case (Some x)
  assume "new_Date h v = Inl e"
  with Some show ?thesis
    by (cases x)
      (auto simp add: new_Date_def simp del: toString.simps split: sum.splits dest: toString_error)
qed

lemma safeDate_ok:
  "string_ok v \<Longrightarrow>
   safeDate h v =
     Inr (if truthy v then (case date_value h v of Some t \<Rightarrow> iso_text t | None \<Rightarrow> []) else [])"
  by (auto simp add: safeDate_def new_Date_ok split: option.splits)

lemma normalizeEnum_ok:
  "string_ok v \<Longrightarrow>
   normalizeEnum h v f =
     Inr (let str = trim (text_js h (or_js v (Some (JStr []))))
          in if str = [] then f else to_upper (hd str) # map to_lower (tl str))"
proof -
  assume "string_ok v"
  then have "String_js h (or_js v (Some (JStr []))) = Inr (text_js h (or_js v (Some (JStr []))))"
    by (intro String_js_ok string_ok_or_js) simp_all
  moreover have "toUpperCase (charAt s 0) @ toLowerCase (slice s 1) = to_upper (hd s) # map to_lower (tl s)"
    if "s \<noteq> []" for s
    using that
    by (cases s) (simp_all add: toUpperCase_def toLowerCase_def charAt_def slice_def)
  ultimately show ?thesis by (simp add: normalizeEnum_def Let_def)
qed

section \<open>Lists, objects and the store\<close>

lemma id_matches_conv:
  "keyed item \<Longrightarrow> stringifiable ident \<Longrightarrow>
   id_matches h ident item = Inr (id_text h item = text_js h (Some ident))"
  by (simp add: id_matches_def keyed_def get_prop_not_null String_js_ok id_text_def)

lemma id_differs_conv:
  "keyed item \<Longrightarrow> stringifiable ident \<Longrightarrow>
   id_differs h ident item = Inr (id_text h item \<noteq> text_js h (Some ident))"
  by (simp add: id_differs_def keyed_def get_prop_not_null String_js_ok id_text_def)

lemma id_matches_True_not_null: "id_matches h ident x = Inr True \<Longrightarrow> x \<noteq> JNull"
  by (auto simp add: id_matches_def)

lemma findIndex_none:
  "\<forall>x\<in>set xs. p x = Inr False \<Longrightarrow> findIndex p xs = Inr None"
  by (induction xs) simp_all

lemma findIndex_some:
  "findIndex p xs = Inr (Some i) \<Longrightarrow> i < length xs \<and> p (xs ! i) = Inr True"
proof (induction xs arbitrary: i)
  case Nil
  then show ?case by simp
next
  case (Cons x xs)
  then show ?case
    by (cases i) (auto split: sum.splits bool.splits option.splits)
qed

lemma filter_js_total:
  "\<forall>x\<in>set xs. p x = Inr (q x) \<Longrightarrow> filter_js p xs = Inr (filter q xs)"
  by (induction xs) simp_all

lemma map_of_assign:
  "k \<notin> fst ` set b \<Longrightarrow> map_of (assign a b) k = map_of a k"
  unfolding assign_def
proof (induction b arbitrary: a)
  case Nil
  then show ?case by simp
next
  case (Cons x b)
  obtain k' v where x: "x = (k', v)" by (cases x)
  from Cons.prems x have "k \<noteq> k'" "k \<notin> fst ` set b" by auto
  then show ?case using Cons.IH [of "AList.update k' v a"] x by (simp add: update_conv')
qed

lemma map_of_assign_in:
  "distinct (map fst b) \<Longrightarrow> map_of b k = Some v \<Longrightarrow> map_of (assign a b) k = Some v"
proof (induction b arbitrary: a)
  case Nil
  then show ?case by simp
next
  case (Cons x b)
  obtain k' v' where x: "x = (k', v')" by (cases x)
  have step: "assign a (x # b) = assign (AList.update k' v' a) b"
    by (simp add: assign_def x)
  show ?case
  proof (cases "k' = k")
    case True
    with Cons.prems x have "v' = v" "k \<notin> fst ` set b" by auto
    then show ?thesis
      using map_of_assign [of k b "AList.update k' v' a"] True
      by (simp add: step update_conv')
  next
    case False
    with Cons.prems x have "distinct (map fst b)" "map_of b k = Some v" by auto
    then show ?thesis using Cons.IH [of "AList.update k' v' a"] by (simp add: step)
  qed
qed

lemma map_of_assign_distinct:
  "distinct (map fst b) \<Longrightarrow>
   map_of (assign a b) k = (case map_of b k of Some v \<Rightarrow> Some v | None \<Rightarrow> map_of a k)"
proof (cases "map_of b k")
  case None
  then have "k \<notin> fst ` set b" by (simp add: map_of_eq_None_iff)
  then show ?thesis using None by (simp add: map_of_assign)
next
  case (Some v)
  assume "distinct (map fst b)"
  then show ?thesis using Some by (simp add: map_of_assign_in)
qed

section \<open>The record mapper\<close>

lemma mapped_lookup:
    "map_of (assign a [(''id'', v1), (''createdAt'', v2), (''serialNumber'', v3), (''dueDate'', v4), (''issueDate'', v5), (''empId'', v6), (''name'', v7), (''assigneeName'', v8), (''status'', v9), (''type'', v10), (''location'', v11), (''remarks'', v12), (''service'', v13), (''department'', v14)]) ''id'' = Some v1" 
    "map_of (assign a [(''id'', v1), (''createdAt'', v2), (''serialNumber'', v3), (''dueDate'', v4), (''issueDate'', v5), (''empId'', v6), (''name'', v7), (''assigneeName'', v8), (''status'', v9), (''type'', v10), (''location'', v11), (''remarks'', v12), (''service'', v13), (''department'', v14)]) ''createdAt'' = Some v2" 
    "map_of (assign a [(''id'', v1), (''createdAt'', v2), (''serialNumber'', v3), (''dueDate'', v4), (''issueDate'', v5), (''empId'', v6), (''name'', v7), (''assigneeName'', v8), (''status'', v9), (''type'', v10), (''location'', v11), (''remarks'', v12), (''service'', v13), (''department'', v14)]) ''serialNumber'' = Some v3" 
    "map_of (assign a [(''id'', v1), (''createdAt'', v2), (''serialNumber'', v3), (''dueDate'', v4), (''issueDate'', v5), (''empId'', v6), (''name'', v7), (''assigneeName'', v8), (''status'', v9), (''type'', v10), (''location'', v11), (''remarks'', v12), (''service'', v13), (''department'', v14)]) ''dueDate'' = Some v4" 
    "map_of (assign a [(''id'', v1), (''createdAt'', v2), (''serialNumber'', v3), (''dueDate'', v4), (''issueDate'', v5), (''empId'', v6), (''name'', v7), (''assigneeName'', v8), (''status'', v9), (''type'', v10), (''location'', v11), (''remarks'', v12), (''service'', v13), (''department'', v14)]) ''issueDate'' = Some v5" 
    "map_of (assign a [(''id'', v1), (''createdAt'', v2), (''serialNumber'', v3), (''dueDate'', v4), (''issueDate'', v5), (''empId'', v6), (''name'', v7), (''assigneeName'', v8), (''status'', v9), (''type'', v10), (''location'', v11), (''remarks'', v12), (''service'', v13), (''department'', v14)]) ''empId'' = Some v6" 
    "map_of (assign a [(''id'', v1), (''createdAt'', v2), (''serialNumber'', v3), (''dueDate'', v4), (''issueDate'', v5), (''empId'', v6), (''name'', v7), (''assigneeName'', v8), (''status'', v9), (''type'', v10), (''location'', v11), (''remarks'', v12), (''service'', v13), (''department'', v14)]) ''name'' = Some v7" 
    "map_of (assign a [(''id'', v1), (''createdAt'', v2), (''serialNumber'', v3), (''dueDate'', v4), (''issueDate'', v5), (''empId'', v6), (''name'', v7), (''assigneeName'', v8), (''status'', v9), (''type'', v10), (''location'', v11), (''remarks'', v12), (''service'', v13), (''department'', v14)]) ''assigneeName'' = Some v8" 
    "map_of (assign a [(''id'', v1), (''createdAt'', v2), (''serialNumber'', v3), (''dueDate'', v4), (''issueDate'', v5), (''empId'', v6), (''name'', v7), (''assigneeName'', v8), (''status'', v9), (''type'', v10), (''location'', v11), (''remarks'', v12), (''service'', v13), (''department'', v14)]) ''status'' = Some v9" 
    "map_of (assign a [(''id'', v1), (''createdAt'', v2), (''serialNumber'', v3), (''dueDate'', v4), (''issueDate'', v5), (''empId'', v6), (''name'', v7), (''assigneeName'', v8), (''status'', v9), (''type'', v10), (''location'', v11), (''remarks'', v12), (''service'', v13), (''department'', v14)]) ''type'' = Some v10" 
    "map_of (assign a [(''id'', v1), (''createdAt'', v2), (''serialNumber'', v3), (''dueDate'', v4), (''issueDate'', v5), (''empId'', v6), (''name'', v7), (''assigneeName'', v8), (''status'', v9), (''type'', v10), (''location'', v11), (''remarks'', v12), (''service'', v13), (''department'', v14)]) ''location'' = Some v11" 
    "map_of (assign a [(''id'', v1), (''createdAt'', v2), (''serialNumber'', v3), (''dueDate'', v4), (''issueDate'', v5), (''empId'', v6), (''name'', v7), (''assigneeName'', v8), (''status'', v9), (''type'', v10), (''location'', v11), (''remarks'', v12), (''service'', v13), (''department'', v14)]) ''remarks'' = Some v12" 
    "map_of (assign a [(''id'', v1), (''createdAt'', v2), (''serialNumber'', v3), (''dueDate'', v4), (''issueDate'', v5), (''empId'', v6), (''name'', v7), (''assigneeName'', v8), (''status'', v9), (''type'', v10), (''location'', v11), (''remarks'', v12), (''service'', v13), (''department'', v14)]) ''service'' = Some v13" 
    "map_of (assign a [(''id'', v1), (''createdAt'', v2), (''serialNumber'', v3), (''dueDate'', v4), (''issueDate'', v5), (''empId'', v6), (''name'', v7), (''assigneeName'', v8), (''status'', v9), (''type'', v10), (''location'', v11), (''remarks'', v12), (''service'', v13), (''department'', v14)]) ''department'' = Some v14"
  by (simp_all add: map_of_assign_distinct)

lemma map_item_null: "map_item h random36 now JNull = Inl TypeError"
  by (simp add: map_item_def)

lemma map_item_plain:
  "plain_record item \<Longrightarrow> \<exists>al. map_item h random36 now item = Inr (JObj al)"
  by (simp add: map_item_def get_prop_not_null plain_not_null String_js_ok
      string_ok_or_js plain_field safeDate_ok normalizeEnum_ok Let_def)

lemma mapped_field_eq:
  "map_item h random36 now item = Inr x \<Longrightarrow> mapped_field h random36 now item k = field x k"
  by (simp add: mapped_field_def)

lemma mapped_id:
  assumes "plain_record item"
  shows "mapped_field h random36 now item ''id'' =
           Some (JStr (if truthy (field item ''id'')
                       then text_js h (field item ''id'')
                       else generateId random36))"
  using assms
  by (simp add: mapped_field_def map_item_def get_prop_not_null plain_not_null String_js_ok
      string_ok_or_js plain_field safeDate_ok normalizeEnum_ok Let_def field_JObj mapped_lookup)

lemma mapped_name:
  assumes "plain_record item"
  shows "mapped_field h random36 now item ''name'' =
           Some (JStr (text_js h
             (if truthy (field item ''equipment_name'') then field item ''equipment_name''
              else or_js (or_js (field item ''name'') (field item ''equipment_name''))
                     (Some (JStr ''Unknown Equipment'')))))"
  using assms
  by (simp add: mapped_field_def map_item_def get_prop_not_null plain_not_null String_js_ok
      string_ok_or_js plain_field safeDate_ok normalizeEnum_ok Let_def field_JObj mapped_lookup)

lemma mapped_assigneeName:
  assumes "plain_record item"
  shows "mapped_field h random36 now item ''assigneeName'' =
           Some (JStr (text_js h
             (if truthy (field item ''equipment_name'') \<and> truthy (field item ''name'')
                 \<and> \<not> truthy (or_js (or_js (field item ''assigneeName'')
                                 (field item ''assignee_name'')) (Some (JStr [])))
              then field item ''name''
              else or_js (or_js (field item ''assigneeName'') (field item ''assignee_name''))
                     (Some (JStr [])))))"
  using assms
  by (simp add: mapped_field_def map_item_def get_prop_not_null plain_not_null String_js_ok
      string_ok_or_js plain_field safeDate_ok normalizeEnum_ok Let_def field_JObj mapped_lookup)

lemma mapped_dueDate:
  assumes "plain_record item"
  shows "mapped_field h random36 now item ''dueDate'' =
           Some (JStr (let v = or_js (field item ''dueDate'') (field item ''due_date'')
                       in if truthy v
                          then (case date_value h v of Some t \<Rightarrow> iso_text t | None \<Rightarrow> [])
                          else []))"
  using assms
  by (simp add: mapped_field_def map_item_def get_prop_not_null plain_not_null String_js_ok
      string_ok_or_js plain_field safeDate_ok normalizeEnum_ok Let_def field_JObj mapped_lookup)

lemma mapped_createdAt:
  assumes "plain_record item"
  shows "mapped_field h random36 now item ''createdAt'' =
           Some (or_val (field item ''createdAt'') (JStr (iso_text now)))"
  using assms
  by (simp add: mapped_field_def map_item_def get_prop_not_null plain_not_null String_js_ok
      string_ok_or_js plain_field safeDate_ok normalizeEnum_ok Let_def field_JObj mapped_lookup)

lemma map_items_plain:
  "list_all plain_record xs \<Longrightarrow>
   \<exists>ys. map_items h random36 clock i xs = Inr ys \<and> length ys = length xs \<and>
     (\<forall>j<length xs. map_item h (random36 (i + j)) (clock (i + j)) (xs ! j) = Inr (ys ! j))"
proof (induction xs arbitrary: i)
  case Nil
  then show ?case by simp
next
  case (Cons x xs)
  then have p: "plain_record x" "list_all plain_record xs" by auto
  from map_item_plain [OF p(1), of h "random36 i" "clock i"]
  obtain al where x: "map_item h (random36 i) (clock i) x = Inr (JObj al)" by blast
  from Cons.IH [OF p(2), of "Suc i"]
  obtain ys where ys: "map_items h random36 clock (Suc i) xs = Inr ys" "length ys = length xs"
    "\<forall>j<length xs. map_item h (random36 (Suc i + j)) (clock (Suc i + j)) (xs ! j) = Inr (ys ! j)"
    by blast
  have "\<forall>j<length (x # xs). map_item h (random36 (i + j)) (clock (i + j)) ((x # xs) ! j)
      = Inr ((JObj al # ys) ! j)"
  proof (intro allI impI)
    fix j assume "j < length (x # xs)"
    then show "map_item h (random36 (i + j)) (clock (i + j)) ((x # xs) ! j) = Inr ((JObj al # ys) ! j)"
      using x ys(3) by (cases j) simp_all
  qed
  then show ?case using x ys(1,2) by simp
qed

section \<open>Results of the store operations\<close>

lemma read_items_Parses: "read_items (Parses v) = Inr v"
  by (simp add: read_items_def)

lemma stored_items_Parses: "stored_items (Parses (JArr xs)) = xs"
  by (simp add: stored_items_def read_items_def)

lemma stored_items_read: "read_items st = Inr (JArr xs) \<Longrightarrow> stored_items st = xs"
  by (simp add: stored_items_def)

lemma text_js_JStr: "text_js h (Some (JStr s)) = s"
  by (simp add: text_js_def String_js_def)

lemma dec_digits: "set (dec n) \<subseteq> set ''0123456789''"
proof (induction n rule: dec.induct)
  case (1 n)
  have d: "digit_char k \<in> set ''0123456789''" if "k < 10" for k
  proof -
    from that have "k \<in> {0, 1, 2, 3, 4, 5, 6, 7, 8, 9}" by auto
    then show ?thesis by (auto simp add: digit_char_def)
  qed
  show ?case
  proof (cases "n < 10")
    case True
    then show ?thesis using d [of n] by (simp add: dec.simps [of n])
  next
    case False
    then show ?thesis using 1 d [of "n mod 10"] by (simp add: dec.simps [of n])
  qed
qed

lemma dec_not_createdAt: "dec n \<noteq> ''createdAt''"
proof
  assume "dec n = ''createdAt''"
  then have "CHR ''c'' \<in> set (dec n)" by simp
  with dec_digits [of n] show False by auto
qed

lemma indexed_keys: "fst ` set (indexed i xs) \<subseteq> range dec"
  by (induction xs arbitrary: i) auto

lemma createdAt_not_indexed: "''createdAt'' \<notin> fst ` set (indexed i xs)"
proof
  assume "''createdAt'' \<in> fst ` set (indexed i xs)"
  with indexed_keys [of i xs] have "''createdAt'' \<in> range dec" by blast
  then obtain n where "''createdAt'' = dec n" by blast
  with dec_not_createdAt [of n] show False by simp
qed

lemma own_props_createdAt:
  "x \<noteq> JNull \<Longrightarrow> map_of (own_props x) ''createdAt'' = field x ''createdAt''"
proof (cases x)
  case (JArr xs)
  then show ?thesis
    using createdAt_not_indexed [of 0 xs] by (simp add: field_def map_of_eq_None_iff)
next
  case (JStr s)
  then show ?thesis
    using createdAt_not_indexed [of 0 "map (\<lambda>c. JStr [c]) s"]
    by (simp add: field_def map_of_eq_None_iff)
qed (simp_all add: field_def)

lemma update_result:
  assumes "update h st ident updates = (Inr r, st')"
  shows "\<exists>items index. read_items st = Inr (JArr items) \<and> index < length items
           \<and> items ! index \<noteq> JNull
           \<and> r = JObj (assign (own_props (items ! index)) updates)
           \<and> st' = Parses (JArr (items[index := r]))"
proof -
  from assms obtain v where v: "read_items st = Inr v"
    by (cases "read_items st") (simp_all add: update_def)
  from assms v obtain items where items: "v = JArr items"
    by (cases v) (simp_all add: update_def)
  from assms v items obtain index where
    index: "findIndex (id_matches h ident) items = Inr (Some index)"
    by (cases "findIndex (id_matches h ident) items")
      (auto simp add: update_def split: option.splits)
  from findIndex_some [OF index] have "index < length items" "items ! index \<noteq> JNull"
    by (auto dest: id_matches_True_not_null)
  moreover from assms v items index
  have "r = JObj (assign (own_props (items ! index)) updates)"
    "st' = Parses (JArr (items[index := r]))"
    by (auto simp add: update_def Let_def)
  ultimately show ?thesis using v items by blast
qed

lemma update_error: "fst (update h st ident updates) = Inl e \<Longrightarrow> snd (update h st ident updates) = st"
  by (auto simp add: update_def Let_def split: sum.splits option.splits)

lemma add_result:
  assumes "read_items st = Inr (JArr items)"
  shows "add st random36 now item =
           (Inr (JObj (assign item [(''id'', JStr (generateId random36)),
                                    (''createdAt'', JStr (iso_text now))])),
            Parses (JArr (items @ [JObj (assign item [(''id'', JStr (generateId random36)),
                                    (''createdAt'', JStr (iso_text now))])])))"
  using assms by (simp add: add_def Let_def)

lemma importBulk_result:
  assumes "read_items st = Inr (JArr current)" and "list_all plain_record newItems"
  shows "\<exists>processed. importBulk h random36 clock st newItems
             = (Inr (), Parses (JArr (current @ processed)))
           \<and> length processed = length newItems
           \<and> (\<forall>j<length newItems.
                 map_item h (random36 j) (clock j) (newItems ! j) = Inr (processed ! j))"
proof -
  from map_items_plain [OF assms(2), of h random36 clock 0]
  obtain ys where ys: "map_items h random36 clock 0 newItems = Inr ys"
    "length ys = length newItems"
    "\<forall>j<length newItems. map_item h (random36 (0 + j)) (clock (0 + j)) (newItems ! j) = Inr (ys ! j)"
    by blast
  then show ?thesis using assms(1) by (simp add: importBulk_def)
qed

lemma importBulk_ids:
  assumes "read_items st = Inr (JArr current)" and "list_all plain_record newItems"
  shows "\<exists>processed. importBulk h random36 clock st newItems
             = (Inr (), Parses (JArr (current @ processed)))
           \<and> length processed = length newItems
           \<and> (\<forall>j<length newItems. field (processed ! j) ''id'' =
                 Some (JStr (if truthy (field (newItems ! j) ''id'')
                             then text_js h (field (newItems ! j) ''id'')
                             else generateId (random36 j))))"
proof -
  from importBulk_result [OF assms, of h random36 clock]
  obtain processed where p: "importBulk h random36 clock st newItems
             = (Inr (), Parses (JArr (current @ processed)))"
    "length processed = length newItems"
    "\<forall>j<length newItems. map_item h (random36 j) (clock j) (newItems ! j) = Inr (processed ! j)"
    by blast
  have "field (processed ! j) ''id'' =
          Some (JStr (if truthy (field (newItems ! j) ''id'')
                      then text_js h (field (newItems ! j) ''id'')
                      else generateId (random36 j)))" if "j < length newItems" for j
  proof -
    from that assms(2) have "plain_record (newItems ! j)" by (simp add: list_all_length)
    from mapped_id [OF this, of h "random36 j" "clock j"]
      mapped_field_eq [of h "random36 j" "clock j" "newItems ! j" "processed ! j" "''id''"]
      p(3) that
    show ?thesis by simp
  qed
  with p(1,2) show ?thesis by blast
qed

lemma importBulk_stored_ids:
  assumes "read_items st = Inr (JArr current)" and "list_all plain_record newItems"
    and "list_all (\<lambda>x. truthy (field x ''id'')) newItems"
  shows "\<exists>st'. importBulk h random36 clock st newItems = (Inr (), st')
           \<and> read_items st' = Inr (JArr (stored_items st'))
           \<and> stored_ids h st' =
               map (id_text h) current @ map (\<lambda>x. text_js h (field x ''id'')) newItems"
proof -
  from importBulk_ids [OF assms(1,2), of h random36 clock]
  obtain processed where p: "importBulk h random36 clock st newItems
             = (Inr (), Parses (JArr (current @ processed)))"
    "length processed = length newItems"
    "\<forall>j<length newItems. field (processed ! j) ''id'' =
                 Some (JStr (if truthy (field (newItems ! j) ''id'')
                             then text_js h (field (newItems ! j) ''id'')
                             else generateId (random36 j)))"
    by blast
  have "map (id_text h) processed = map (\<lambda>x. text_js h (field x ''id'')) newItems"
  proof (rule nth_equalityI)
    show "length (map (id_text h) processed) = length (map (\<lambda>x. text_js h (field x ''id'')) newItems)"
      using p(2) by simp
  next
    fix j assume "j < length (map (id_text h) processed)"
    then have j: "j < length newItems" using p(2) by simp
    with assms(3) have "truthy (field (newItems ! j) ''id'')" by (simp add: list_all_length)
    with p(3) j have "field (processed ! j) ''id'' = Some (JStr (text_js h (field (newItems ! j) ''id'')))"
      by simp
    then show "map (id_text h) processed ! j = map (\<lambda>x. text_js h (field x ''id'')) newItems ! j"
      using j p(2) by (simp add: id_text_def text_js_JStr)
  qed
  then show ?thesis
    using p(1) by (simp add: stored_ids_def stored_items_Parses read_items_Parses)
qed

section \<open>Evaluating examples\<close>

lemma pad_2: "pad 2 n = [digit_char (n div 10 mod 10), digit_char (n mod 10)]"
  by (simp add: numeral_2_eq_2)

lemma pad_3:
  "pad 3 n = [digit_char (n div 100 mod 10), digit_char (n div 10 mod 10), digit_char (n mod 10)]"
  by (simp add: numeral_3_eq_3)

lemma pad_4_digits:
  "pad 4 n = [digit_char (n div 1000 mod 10), digit_char (n div 100 mod 10),
              digit_char (n div 10 mod 10), digit_char (n mod 10)]"
  using pad_4 [of n] by (simp add: pad_3)

lemmas date_fields = YearFromTime_def YearFromDay_def Day_def TimeWithinDay_def msPerDay_def
  DayFromYear_def MonthFromTime_def DateFromTime_def DayWithinYear_def InLeapYear_def
  DaysInYear_def HourFromTime_def MinFromTime_def SecFromTime_def msFromTime_def Let_def

lemmas date_text_eval = iso_text_def year_text_def date_fields pad_2 pad_3 pad_4_digits
  digit_char_def

lemma iso_text_example: "iso_text 1704067200000 = ''2024-01-01T00:00:00.000Z''"
  by (simp add: date_text_eval)

lemma iso_parse_date_example: "iso_parse ''2024-01-01'' = Some 1704067200000"
  by code_simp

lemma iso_parse_full_example: "iso_parse ''2024-01-01T00:00:00.000Z'' = Some 1704067200000"
  by code_simp

lemma instant_example: "MakeDate (MakeDay 2024 0 1) (MakeTime 0 0 0 0) = 1704067200000"
  by code_simp

lemma dec_digit: "n < 10 \<Longrightarrow> dec n = [digit_char n]"
  by (simp add: dec.simps)

lemma dec_42: "dec 42 = ''42''"
  by code_simp

lemma generateId_example: "generateId ''0.4fzyo82mvyr'' = ''4fzyo82mv''"
  by (simp add: generateId_def substr_def)

lemma utc_host_simps:
  "number_text utc_host = (\<lambda>r. ''NaN'')" "date_text utc_host = (\<lambda>s. None)"
  "tza_utc utc_host = (\<lambda>t. 0)" "tza_local utc_host = (\<lambda>t. 0)"
  by (simp_all add: utc_host_def)

lemma text_js_num_1: "text_js h (Some (JNum 1)) = ''1''"
  by (simp add: text_js_def String_js_def number_toString_def dec_digit digit_char_def)

lemma text_js_num_42: "text_js h (Some (JNum 42)) = ''42''"
  by (simp add: text_js_def String_js_def number_toString_def dec_42)

lemma text_js_num_7: "text_js h (Some (JNum 7)) = ''7''"
  by (simp add: text_js_def String_js_def number_toString_def dec_digit digit_char_def)

lemma text_js_num_0: "text_js h (Some (JNum 0)) = ''0''"
  by (simp add: text_js_def String_js_def number_toString_def dec_digit digit_char_def)

section \<open>Results on the field normalizer\<close>

lemma TimeClip_range: "TimeClip t = Some u \<Longrightarrow> \<bar>u\<bar> \<le> 8640000000000000"
  by (simp add: TimeClip_def split: if_splits)

lemma Date_parse_range: "Date_parse h s = Some t \<Longrightarrow> \<bar>t\<bar> \<le> 8640000000000000"
  by (auto simp add: Date_parse_def split: if_splits option.splits dest: TimeClip_range)

lemma TimeClip_num_range:
  assumes "TimeClip_num r = Some t"
  shows "\<bar>t\<bar> \<le> 8640000000000000"
proof -
  from assms have r: "\<bar>r\<bar> \<le> 8640000000000000"
    and t: "t = (if 0 \<le> r then \<lfloor>r\<rfloor> else \<lceil>r\<rceil>)"
    by (auto simp add: TimeClip_num_def split: if_splits)
  show ?thesis
  proof (cases "0 \<le> r")
    case True
    then have "0 \<le> \<lfloor>r\<rfloor>" by simp
    moreover have "r \<le> of_int 8640000000000000" using r by simp
    then have "\<lfloor>r\<rfloor> \<le> \<lfloor>of_int 8640000000000000 :: rat\<rfloor>" by (rule floor_mono)
    then have "\<lfloor>r\<rfloor> \<le> 8640000000000000" by (simp only: floor_of_int)
    ultimately show ?thesis using t True by simp
  next
    case False
    then have "\<lceil>r\<rceil> \<le> 0" by (simp add: ceiling_le_iff)
    moreover have "of_int (- 8640000000000000) \<le> r" using r by simp
    then have "\<lceil>of_int (- 8640000000000000) :: rat\<rceil> \<le> \<lceil>r\<rceil>" by (rule ceiling_mono)
    then have "- 8640000000000000 \<le> \<lceil>r\<rceil>" by (simp only: ceiling_of_int)
    then have "- \<lceil>r\<rceil> \<le> 8640000000000000" by (simp only: minus_le_iff)
    ultimately have "\<bar>\<lceil>r\<rceil>\<bar> \<le> 8640000000000000" by (intro abs_leI) simp_all
    with t False show ?thesis by (simp only: if_False)
  qed
qed

lemma new_Date_range:
  assumes "new_Date h v = Inr (Some t)"
  shows "\<bar>t\<bar> \<le> 8640000000000000"
proof (cases v)
  case None
  with assms show ?thesis by (simp add: new_Date_def)
next
  case (Some x)
  with assms show ?thesis
    by (cases x)
      (auto simp add: new_Date_def simp del: toString.simps
        split: sum.splits if_splits dest: TimeClip_num_range Date_parse_range)
qed

lemma safeDate_cases:
  "safeDate h v = Inl TypeError \<or> safeDate h v = Inr [] \<or>
   (\<exists>t. new_Date h v = Inr (Some t) \<and> safeDate h v = Inr (iso_text t))"
proof (cases "new_Date h v")
  case (Inl e)
  then have "e = TypeError" by (rule new_Date_error)
  with Inl show ?thesis by (simp add: safeDate_def)
next
  case (Inr d)
  then show ?thesis by (cases d) (simp_all add: safeDate_def)
qed

lemma safeDate_iso_text:
  assumes "\<bar>t\<bar> \<le> 8640000000000000"
  shows "new_Date h (Some (JStr (iso_text t))) = Inr (Some t)"
    and "safeDate h (Some (JStr (iso_text t))) = Inr (iso_text t)"
  using assms by (simp_all add: safeDate_def new_Date_def Date_parse_iso_text iso_text_not_empty)

lemma of_char_shift_up:
  assumes "is_upper c"
  shows "(of_char (char_of (of_char c + 32 :: nat) :: char) :: nat) = of_char c + 32"
proof -
  from assms have "(of_char c :: nat) + 32 < 256" unfolding is_upper_def by arith
  then show ?thesis by simp
qed

lemma of_char_shift_down:
  assumes "is_lower c"
  shows "(of_char (char_of (of_char c - 32 :: nat) :: char) :: nat) = of_char c - 32"
proof -
  from assms have "(of_char c :: nat) - 32 < 256" unfolding is_lower_def by arith
  then show ?thesis by simp
qed

lemma to_upper_not_lower: "\<not> is_lower (to_upper c)"
proof (cases "is_lower c")
  case True
  then have "(of_char (to_upper c) :: nat) = of_char c - 32"
    using of_char_shift_down [of c] by (simp add: to_upper_def)
  with True show ?thesis unfolding is_lower_def by arith
next
  case False
  then show ?thesis by (simp add: to_upper_def)
qed

lemma to_lower_not_upper: "\<not> is_upper (to_lower c)"
proof (cases "is_upper c")
  case True
  then have "(of_char (to_lower c) :: nat) = of_char c + 32"
    using of_char_shift_up [of c] by (simp add: to_lower_def)
  with True show ?thesis unfolding is_upper_def by arith
next
  case False
  then show ?thesis by (simp add: to_lower_def)
qed

lemma to_upper_letter: "is_lower c \<or> is_upper c \<Longrightarrow> is_upper (to_upper c)"
proof (cases "is_lower c")
  case True
  then have "(of_char (to_upper c) :: nat) = of_char c - 32"
    using of_char_shift_down [of c] by (simp add: to_upper_def)
  with True show ?thesis unfolding is_lower_def is_upper_def by arith
next
  case False
  assume "is_lower c \<or> is_upper c"
  with False show ?thesis by (simp add: to_upper_def)
qed

lemma falsy_text: "string_ok v \<Longrightarrow> \<not> truthy v \<Longrightarrow> text_js h (or_js v (Some (JStr []))) = []"
  by (simp add: or_js_def text_js_JStr)

lemma trim_example: "trim ''  laPTop '' = ''laPTop''"
  by code_simp

lemma case_examples:
  "to_upper CHR ''l'' = CHR ''L''" "to_lower CHR ''a'' = CHR ''a''"
  "to_lower CHR ''P'' = CHR ''p''" "to_lower CHR ''T'' = CHR ''t''"
  "to_lower CHR ''o'' = CHR ''o''" "to_lower CHR ''p'' = CHR ''p''"
  "to_upper CHR ''1'' = CHR ''1''" "to_lower CHR ''s'' = CHR ''s''"
  "to_lower CHR ''t'' = CHR ''t''" "\<not> is_upper CHR ''1''"
  by code_simp+

lemma trim_digits_example: "trim ''1st'' = ''1st''"
  by code_simp

section \<open>Results on the dashboard statistics\<close>

lemma MakeDay_plus: "MakeDay y m (d + k) = MakeDay y m d + k"
  by (simp add: MakeDay_def Let_def)

lemma setDate_plus:
  "setDate h t (getDate h t + k) = TimeClip (UTC h (LocalTime h t + k * msPerDay))"
proof -
  define tl where "tl = LocalTime h t"
  have "MakeDay (YearFromTime tl) (MonthFromTime tl) (DateFromTime tl + k) = Day tl + k"
    by (simp only: MakeDay_plus MakeDay_roundtrip)
  then have "MakeDate (MakeDay (YearFromTime tl) (MonthFromTime tl) (DateFromTime tl + k))
          (TimeWithinDay tl) = MakeDate (Day tl) (TimeWithinDay tl) + k * msPerDay"
    by (simp add: MakeDate_def algebra_simps)
  then show ?thesis
    by (simp add: setDate_def getDate_def Let_def tl_def [symmetric] MakeDate_Day)
qed

lemma setDate_same_offset:
  assumes "tza_local h (LocalTime h t + k * msPerDay) = tza_utc h t"
    and "\<bar>t + k * msPerDay\<bar> \<le> 8640000000000000"
  shows "setDate h t (getDate h t + k) = Some (t + k * msPerDay)"
proof -
  have "UTC h (LocalTime h t + k * msPerDay) = t + k * msPerDay"
    using assms(1) by (simp add: UTC_def) (simp add: LocalTime_def)
  with assms(2) show ?thesis by (simp add: setDate_plus TimeClip_def)
qed

lemma date_le_not_None: "(d \<noteq> None \<and> date_le d b) = date_le d b"
  by (cases d) simp_all

lemma count_item_plain:
  assumes "plain_record item"
  shows "\<exists>s'. count_item h horizon item s = Inr s'
           \<and> expired s' = expired s + (if due_by h horizon item then 1 else 0)"
proof -
  have n: "get_prop item ''type'' = Inr (field item ''type'')"
    using assms by (simp add: get_prop_not_null plain_not_null)
  have t: "String_js h (field item ''type'') = Inr (text_js h (field item ''type''))"
    and st: "String_js h (field item ''status'') = Inr (text_js h (field item ''status''))"
    and d: "new_Date h (field item ''dueDate'') = Inr (date_value h (field item ''dueDate''))"
    using assms by (simp_all add: String_js_ok new_Date_ok plain_field)
  show ?thesis
    by (simp add: count_item_def n t st d Let_def due_by_def date_le_not_None)
qed

lemma forEach_count:
  assumes "list_all plain_record data"
  shows "\<exists>s'. forEach (count_item h horizon) data s = Inr s'
           \<and> expired s' = expired s + length (filter (due_by h horizon) data)"
  using assms
proof (induction data arbitrary: s)
  case Nil
  then show ?case by simp
next
  case (Cons x xs)
  then have p: "plain_record x" "list_all plain_record xs" by simp_all
  from count_item_plain [OF p(1), of h horizon s]
  obtain s1 where s1: "count_item h horizon x s = Inr s1"
    "expired s1 = expired s + (if due_by h horizon x then 1 else 0)" by blast
  from Cons.IH [OF p(2), of s1]
  obtain s2 where s2: "forEach (count_item h horizon) xs s1 = Inr s2"
    "expired s2 = expired s1 + length (filter (due_by h horizon) xs)" by blast
  from s1 s2 show ?case by simp
qed

lemma dashboard_expired:
  assumes "list_all plain_record data"
  shows "\<exists>s. dashboard_stats h now now' data = Inr s
           \<and> expired s =
               length (filter (due_by h (setDate h now' (getDate h now + 30))) data)"
proof -
  from forEach_count [OF assms, of h "setDate h now' (getDate h now + 30)"
      "\<lparr>expired = 0, breakdown = 0, maintenance = 0, byType = [], total = 0\<rparr>"]
  obtain s' where "forEach (count_item h (setDate h now' (getDate h now + 30))) data
        \<lparr>expired = 0, breakdown = 0, maintenance = 0, byType = [], total = 0\<rparr> = Inr s'"
    "expired s' = length (filter (due_by h (setDate h now' (getDate h now + 30))) data)"
    by auto
  then show ?thesis by (simp add: dashboard_stats_def Let_def)
qed

lemma iso_parse_due_examples:
  "iso_parse ''2024-01-31T00:00:00.000Z'' = Some 1706659200000"
  "iso_parse ''2024-02-01T00:00:00.000Z'' = Some 1706745600000"
  "iso_parse ''1999-12-31'' = Some 946598400000"
  by code_simp+

lemma date_value_iso:
  "s \<noteq> [] \<Longrightarrow> iso_parse s = Some t \<Longrightarrow> \<bar>t\<bar> \<le> 8640000000000000 \<Longrightarrow>
   date_value h (Some (JStr s)) = Some t"
  by (simp add: date_value_def new_Date_def Date_parse_def TimeClip_def)

section \<open>Properties of the store\<close>

text \<open>
  Claim C10, as stated for every store state, fails on a stored array that holds a \<^verbatim>\<open>null\<close>:
  the filter callback throws on it, and the record of the given identifier stays.
\<close>

theorem delete_null_element_counterexample:
  "delete utc_host (Parses (JArr [JObj [(''id'', JStr ''1'')], JNull])) (JStr ''1'')
     = (Inl TypeError, Parses (JArr [JObj [(''id'', JStr ''1'')], JNull]))"
  by (simp add: delete_def read_items_def id_differs_def String_js_def)

text \<open>
  Claim C10, amended. On a store whose text parses to an array of records (elements that
  are not \<^verbatim>\<open>null\<close> and whose \<^verbatim>\<open>id\<close>, where present, has a string form), and for an
  identifier that has a string form, \<^verbatim>\<open>delete(id)\<close> returns normally and leaves exactly the
  records whose \<^verbatim>\<open>id\<close>, as a string, differs from the string form of \<open>id\<close>, unchanged and
  in their order: every record of that id is removed, however many share it.
\<close>

theorem delete_removes_every_match:
  assumes "read_items st = Inr (JArr items)" and "list_all keyed items"
    and "stringifiable ident"
  shows "delete h st ident =
           (Inr (), Parses (JArr (filter (\<lambda>item. id_text h item \<noteq> text_js h (Some ident)) items)))"
proof -
  have "\<forall>x\<in>set items. id_differs h ident x = Inr (id_text h x \<noteq> text_js h (Some ident))"
    using assms(2,3) by (simp add: list_all_iff id_differs_conv)
  then have "filter_js (id_differs h ident) items =
      Inr (filter (\<lambda>item. id_text h item \<noteq> text_js h (Some ident)) items)"
    by (rule filter_js_total)
  with assms(1) show ?thesis by (simp add: delete_def)
qed

theorem delete_removes_every_match_witness:
  "read_items (Parses (JArr [JObj [(''id'', JStr ''1''), (''name'', JStr ''Drill'')],
       JObj [(''id'', JStr ''2'')], JObj [(''id'', JNum 1)]]))
     = Inr (JArr [JObj [(''id'', JStr ''1''), (''name'', JStr ''Drill'')],
       JObj [(''id'', JStr ''2'')], JObj [(''id'', JNum 1)]])
   \<and> list_all keyed [JObj [(''id'', JStr ''1''), (''name'', JStr ''Drill'')],
       JObj [(''id'', JStr ''2'')], JObj [(''id'', JNum 1)]]
   \<and> stringifiable (JStr ''1'')
   \<and> delete utc_host (Parses (JArr [JObj [(''id'', JStr ''1''), (''name'', JStr ''Drill'')],
       JObj [(''id'', JStr ''2'')], JObj [(''id'', JNum 1)]])) (JStr ''1'')
     = (Inr (), Parses (JArr [JObj [(''id'', JStr ''2'')]]))"
proof -
  let ?items = "[JObj [(''id'', JStr ''1''), (''name'', JStr ''Drill'')],
       JObj [(''id'', JStr ''2'')], JObj [(''id'', JNum 1)]]"
  have a: "read_items (Parses (JArr ?items)) = Inr (JArr ?items)"
    by (simp add: read_items_def)
  have b: "list_all keyed ?items" by (simp add: keyed_def field_JObj)
  have c: "stringifiable (JStr ''1'')" by simp
  have d: "filter (\<lambda>item. id_text utc_host item \<noteq> text_js utc_host (Some (JStr ''1''))) ?items
      = [JObj [(''id'', JStr ''2'')]]"
    by (simp add: id_text_def field_JObj text_js_JStr text_js_num_1)
  show ?thesis
    using delete_removes_every_match [OF a b c, of utc_host] a b unfolding d by simp
qed

text \<open>
  Claim C2, as stated, fails for \<^verbatim>\<open>delete\<close>: deleting an identifier that no stored record
  has returns normally and signals nothing.
\<close>

theorem delete_unknown_id_counterexample:
  "id_text utc_host (JObj [(''id'', JStr ''a'')]) = ''a''
   \<and> text_js utc_host (Some (JStr ''b'')) = ''b''
   \<and> delete utc_host (Parses (JArr [JObj [(''id'', JStr ''a'')]])) (JStr ''b'')
     = (Inr (), Parses (JArr [JObj [(''id'', JStr ''a'')]]))"
  by (simp add: delete_def read_items_def id_differs_def String_js_def id_text_def field_JObj
      text_js_JStr)

text \<open>
  Claim C2, amended. On a store whose text parses to an array of records (elements that are
  not \<^verbatim>\<open>null\<close> and whose \<^verbatim>\<open>id\<close>, where present, has a string form), none of which has the
  identifier, itself with a string form: \<^verbatim>\<open>update\<close> throws the error "Item not found" and
  leaves the store as it was; \<^verbatim>\<open>delete\<close> returns normally and writes the same records back.
\<close>

theorem unknown_id:
  assumes "read_items st = Inr (JArr items)" and "list_all keyed items"
    and "stringifiable ident"
    and "list_all (\<lambda>x. id_text h x \<noteq> text_js h (Some ident)) items"
  shows "update h st ident updates = (Inl (Error ''Item not found''), st)
       \<and> delete h st ident = (Inr (), Parses (JArr items))"
proof -
  have "\<forall>x\<in>set items. id_matches h ident x = Inr False"
    using assms(2,3,4) by (simp add: list_all_iff id_matches_conv)
  then have "findIndex (id_matches h ident) items = Inr None" by (rule findIndex_none)
  then have u: "update h st ident updates = (Inl (Error ''Item not found''), st)"
    using assms(1) by (simp add: update_def)
  have "\<forall>x\<in>set items. id_differs h ident x = Inr True"
    using assms(2,3,4) by (simp add: list_all_iff id_differs_conv)
  then have "filter_js (id_differs h ident) items = Inr (filter (\<lambda>x. True) items)"
    by (intro filter_js_total) simp
  then have "delete h st ident = (Inr (), Parses (JArr items))"
    using assms(1) by (simp add: delete_def)
  with u show ?thesis by simp
qed

theorem unknown_id_witness:
  "read_items (Parses (JArr [JObj [(''id'', JStr ''a'')], JObj [(''id'', JNum 7)]]))
     = Inr (JArr [JObj [(''id'', JStr ''a'')], JObj [(''id'', JNum 7)]])
   \<and> list_all keyed [JObj [(''id'', JStr ''a'')], JObj [(''id'', JNum 7)]]
   \<and> stringifiable (JStr ''b'')
   \<and> list_all (\<lambda>x. id_text utc_host x \<noteq> text_js utc_host (Some (JStr ''b'')))
        [JObj [(''id'', JStr ''a'')], JObj [(''id'', JNum 7)]]
   \<and> update utc_host (Parses (JArr [JObj [(''id'', JStr ''a'')], JObj [(''id'', JNum 7)]]))
        (JStr ''b'') [(''status'', JStr ''Assigned'')]
      = (Inl (Error ''Item not found''),
         Parses (JArr [JObj [(''id'', JStr ''a'')], JObj [(''id'', JNum 7)]]))
   \<and> delete utc_host (Parses (JArr [JObj [(''id'', JStr ''a'')], JObj [(''id'', JNum 7)]]))
        (JStr ''b'')
      = (Inr (), Parses (JArr [JObj [(''id'', JStr ''a'')], JObj [(''id'', JNum 7)]]))"
proof -
  let ?items = "[JObj [(''id'', JStr ''a'')], JObj [(''id'', JNum 7)]]"
  have a: "read_items (Parses (JArr ?items)) = Inr (JArr ?items)"
    by (simp add: read_items_def)
  have b: "list_all keyed ?items" by (simp add: keyed_def field_JObj)
  have c: "stringifiable (JStr ''b'')" by simp
  have d: "list_all (\<lambda>x. id_text utc_host x \<noteq> text_js utc_host (Some (JStr ''b''))) ?items"
    by (simp add: id_text_def field_JObj text_js_JStr text_js_num_7)
  show ?thesis
    using unknown_id [OF a b c d, of "[(''status'', JStr ''Assigned'')]"] a b c d by simp
qed

text \<open>
  Claim C9. On a stored text that does not parse, \<^verbatim>\<open>getAll\<close> returns the empty array;
  \<^verbatim>\<open>add\<close>, \<^verbatim>\<open>update\<close>, \<^verbatim>\<open>delete\<close> and \<^verbatim>\<open>importBulk\<close> call \<^verbatim>\<open>JSON.parse\<close> outside any
  \<^verbatim>\<open>try\<close> and throw its \<^verbatim>\<open>SyntaxError\<close> to the caller.
\<close>

theorem unparseable_store:
  "getAll Unparseable = (Inr (JArr []), Unparseable)
   \<and> add Unparseable random36 now item = (Inl SyntaxError, Unparseable)
   \<and> update h Unparseable ident updates = (Inl SyntaxError, Unparseable)
   \<and> delete h Unparseable ident = (Inl SyntaxError, Unparseable)
   \<and> importBulk h random clock Unparseable newItems = (Inl SyntaxError, Unparseable)"
  by (simp add: getAll_def add_def update_def delete_def importBulk_def read_items_def)

text \<open>
  Claim C8, as stated, fails for an update whose fields hold a \<^verbatim>\<open>createdAt\<close>: the merge
  \<^verbatim>\<open>{...items[index], ...updates}\<close> overwrites the stored value.
\<close>

theorem update_createdAt_counterexample:
  "update utc_host
     (Parses (JArr [JObj [(''id'', JStr ''1''), (''createdAt'', JStr ''2024-01-01T00:00:00.000Z'')]]))
     (JStr ''1'') [(''createdAt'', JStr ''1999-12-31T00:00:00.000Z'')]
   = (Inr (JObj [(''id'', JStr ''1''), (''createdAt'', JStr ''1999-12-31T00:00:00.000Z'')]),
      Parses (JArr [JObj [(''id'', JStr ''1''), (''createdAt'', JStr ''1999-12-31T00:00:00.000Z'')]]))"
  by (simp add: update_def read_items_def id_matches_def String_js_def assign_def Let_def)

text \<open>
  Claim C8, amended. \<^verbatim>\<open>createdAt\<close> is assigned at creation: \<^verbatim>\<open>add\<close>, on a store that parses to
  an array, sets it to the ISO text of the current instant, and the record mapper of bulk
  import keeps a truthy \<^verbatim>\<open>createdAt\<close> of the source record and otherwise sets the ISO text of
  the current instant. For every call \<^verbatim>\<open>update(id, fields)\<close> whose \<open>fields\<close> have no
  \<^verbatim>\<open>createdAt\<close> key, whether it succeeds or throws, the \<^verbatim>\<open>createdAt\<close> of every stored record
  after the call equals its value before the call.
\<close>

theorem createdAt_assigned_once:
  "(read_items st0 = Inr (JArr items0) \<longrightarrow>
      (\<exists>new. add st0 random36 now item = (Inr new, Parses (JArr (items0 @ [new])))
         \<and> field new ''createdAt'' = Some (JStr (iso_text now))))
   \<and> (plain_record x \<longrightarrow>
      mapped_field h random36 now x ''createdAt''
        = Some (or_val (field x ''createdAt'') (JStr (iso_text now))))
   \<and> (''createdAt'' \<notin> fst ` set updates \<longrightarrow>
      map (\<lambda>r. field r ''createdAt'') (stored_items (snd (update h st ident updates)))
        = map (\<lambda>r. field r ''createdAt'') (stored_items st))"
proof (intro conjI impI)
  assume "read_items st0 = Inr (JArr items0)"
  from add_result [OF this, of random36 now item]
  show "\<exists>new. add st0 random36 now item = (Inr new, Parses (JArr (items0 @ [new])))
         \<and> field new ''createdAt'' = Some (JStr (iso_text now))"
    by (simp add: field_JObj map_of_assign_distinct)
next
  assume "plain_record x"
  then show "mapped_field h random36 now x ''createdAt''
      = Some (or_val (field x ''createdAt'') (JStr (iso_text now)))"
    by (rule mapped_createdAt)
next
  assume k: "''createdAt'' \<notin> fst ` set updates"
  show "map (\<lambda>r. field r ''createdAt'') (stored_items (snd (update h st ident updates)))
        = map (\<lambda>r. field r ''createdAt'') (stored_items st)"
  proof (cases "fst (update h st ident updates)")
    case (Inl e)
    then show ?thesis by (simp add: update_error)
  next
    case (Inr r)
    then have "update h st ident updates = (Inr r, snd (update h st ident updates))"
      by (simp add: prod_eq_iff)
    from update_result [OF this]
    obtain items index where u: "read_items st = Inr (JArr items)" "index < length items"
      "items ! index \<noteq> JNull" "r = JObj (assign (own_props (items ! index)) updates)"
      "snd (update h st ident updates) = Parses (JArr (items[index := r]))"
      by blast
    have r: "field r ''createdAt'' = field (items ! index) ''createdAt''"
      using k u(3) by (simp add: u(4) field_JObj map_of_assign own_props_createdAt)
    have "map (\<lambda>r. field r ''createdAt'') (items[index := r])
        = map (\<lambda>r. field r ''createdAt'') items"
      using r u(2) by (simp add: map_update list_update_same_conv)
    then show ?thesis
      by (simp add: u(5) stored_items_Parses stored_items_read [OF u(1)])
  qed
qed

theorem createdAt_assigned_once_witness:
  "read_items NoItem = Inr (JArr [])
   \<and> add NoItem ''0.4fzyo82mvyr'' 1704067200000 [(''name'', JStr ''Drill'')]
     = (Inr (JObj [(''name'', JStr ''Drill''), (''id'', JStr ''4fzyo82mv''),
                   (''createdAt'', JStr ''2024-01-01T00:00:00.000Z'')]),
        Parses (JArr [JObj [(''name'', JStr ''Drill''), (''id'', JStr ''4fzyo82mv''),
                   (''createdAt'', JStr ''2024-01-01T00:00:00.000Z'')]]))
   \<and> plain_record (JObj [(''name'', JStr ''Pump'')])
   \<and> mapped_field utc_host ''0.4fzyo82mvyr'' 1704067200000 (JObj [(''name'', JStr ''Pump'')])
         ''createdAt'' = Some (JStr ''2024-01-01T00:00:00.000Z'')
   \<and> ''createdAt'' \<notin> fst ` set [(''status'', JStr ''Assigned'')]
   \<and> update utc_host
        (Parses (JArr [JObj [(''name'', JStr ''Drill''), (''id'', JStr ''4fzyo82mv''),
                   (''createdAt'', JStr ''2024-01-01T00:00:00.000Z'')]]))
        (JStr ''4fzyo82mv'') [(''status'', JStr ''Assigned'')]
     = (Inr (JObj [(''name'', JStr ''Drill''), (''id'', JStr ''4fzyo82mv''),
                   (''createdAt'', JStr ''2024-01-01T00:00:00.000Z''),
                   (''status'', JStr ''Assigned'')]),
        Parses (JArr [JObj [(''name'', JStr ''Drill''), (''id'', JStr ''4fzyo82mv''),
                   (''createdAt'', JStr ''2024-01-01T00:00:00.000Z''),
                   (''status'', JStr ''Assigned'')]]))
   \<and> map (\<lambda>r. field r ''createdAt'') (stored_items (snd (update utc_host
        (Parses (JArr [JObj [(''name'', JStr ''Drill''), (''id'', JStr ''4fzyo82mv''),
                   (''createdAt'', JStr ''2024-01-01T00:00:00.000Z'')]]))
        (JStr ''4fzyo82mv'') [(''status'', JStr ''Assigned'')])))
     = [Some (JStr ''2024-01-01T00:00:00.000Z'')]"
proof -
  let ?new = "JObj [(''name'', JStr ''Drill''), (''id'', JStr ''4fzyo82mv''),
                   (''createdAt'', JStr ''2024-01-01T00:00:00.000Z'')]"
  let ?upd = "JObj [(''name'', JStr ''Drill''), (''id'', JStr ''4fzyo82mv''),
                   (''createdAt'', JStr ''2024-01-01T00:00:00.000Z''),
                   (''status'', JStr ''Assigned'')]"
  note t = createdAt_assigned_once [of NoItem "[]" "''0.4fzyo82mvyr''" 1704067200000
      "[(''name'', JStr ''Drill'')]" "JObj [(''name'', JStr ''Pump'')]"
      utc_host "[(''status'', JStr ''Assigned'')]" "Parses (JArr [?new])" "JStr ''4fzyo82mv''"]
  have r: "read_items NoItem = Inr (JArr [])" by (simp add: read_items_def)
  have a: "add NoItem ''0.4fzyo82mvyr'' 1704067200000 [(''name'', JStr ''Drill'')]
      = (Inr ?new, Parses (JArr [?new]))"
    by (simp add: add_def read_items_def assign_def Let_def generateId_example iso_text_example)
  have p: "plain_record (JObj [(''name'', JStr ''Pump'')])" by (simp add: plain_record_def)
  have m: "mapped_field utc_host ''0.4fzyo82mvyr'' 1704067200000 (JObj [(''name'', JStr ''Pump'')])
         ''createdAt'' = Some (JStr ''2024-01-01T00:00:00.000Z'')"
    using t p by (simp add: field_JObj iso_text_example)
  have u: "update utc_host (Parses (JArr [?new])) (JStr ''4fzyo82mv'')
       [(''status'', JStr ''Assigned'')] = (Inr ?upd, Parses (JArr [?upd]))"
    by (simp add: update_def read_items_def id_matches_def String_js_def assign_def Let_def)
  have k: "''createdAt'' \<notin> fst ` set [(''status'', JStr ''Assigned'')]" by simp
  have c: "map (\<lambda>r. field r ''createdAt'') (stored_items (snd (update utc_host
        (Parses (JArr [?new])) (JStr ''4fzyo82mv'') [(''status'', JStr ''Assigned'')])))
     = [Some (JStr ''2024-01-01T00:00:00.000Z'')]"
    using t k by (simp add: stored_items_Parses field_JObj)
  show ?thesis using r a p m k u c by (intro conjI)
qed

text \<open>
  Claim C6, as stated, gives the wrong count: importing the array
  \<^verbatim>\<open>[{id: 1}, {id: 1}]\<close> twice against an empty store leaves four records of id "1", not
  two.
\<close>

theorem import_twice_counterexample:
  "stored_ids utc_host
     (snd (importBulk utc_host example_random example_clock
        (snd (importBulk utc_host example_random example_clock NoItem
           [JObj [(''id'', JNum 1)], JObj [(''id'', JNum 1)]]))
        [JObj [(''id'', JNum 1)], JObj [(''id'', JNum 1)]]))
   = [''1'', ''1'', ''1'', ''1'']"
proof -
  let ?batch = "[JObj [(''id'', JNum 1)], JObj [(''id'', JNum 1)]]"
  have p: "list_all plain_record ?batch" by (simp add: plain_record_def)
  have i: "list_all (\<lambda>x. truthy (field x ''id'')) ?batch" by (simp add: field_JObj)
  have r: "read_items NoItem = Inr (JArr [])" by (simp add: read_items_def)
  from importBulk_stored_ids [OF r p i, of utc_host example_random example_clock]
  obtain st1 where st1: "importBulk utc_host example_random example_clock NoItem ?batch = (Inr (), st1)"
    "read_items st1 = Inr (JArr (stored_items st1))"
    "stored_ids utc_host st1 = [''1'', ''1'']"
    by (auto simp add: field_JObj text_js_num_1)
  from importBulk_stored_ids [OF st1(2) p i, of utc_host example_random example_clock]
  obtain st2 where st2: "importBulk utc_host example_random example_clock st1 ?batch = (Inr (), st2)"
    "stored_ids utc_host st2 = map (id_text utc_host) (stored_items st1) @ [''1'', ''1'']"
    by (auto simp add: field_JObj text_js_num_1)
  show ?thesis using st1(1,3) st2 by (simp add: stored_ids_def)
qed

text \<open>
  Claim C6, amended. Bulk import preserves duplicate identifiers: importing the array
  \<^verbatim>\<open>[{id: 1}, {id: 1}]\<close> once against an initially empty store yields 2 stored records, both
  with id "1" (and importing it twice yields 4). In general, on a store that parses to an
  array and a batch of records (elements that are not \<^verbatim>\<open>null\<close> and whose property values all
  have a string form), the mapped batch, one record for each element with the element's
  truthy \<^verbatim>\<open>id\<close> as a string or else a generated one, is appended to the store's contents,
  which stay as they are, with no de-duplication against existing identifiers.
\<close>

theorem importBulk_appends:
  assumes "read_items st = Inr (JArr current)" and "list_all plain_record newItems"
  shows "\<exists>processed. importBulk h random36 clock st newItems
             = (Inr (), Parses (JArr (current @ processed)))
           \<and> length processed = length newItems
           \<and> (\<forall>j<length newItems. field (processed ! j) ''id'' =
                 Some (JStr (if truthy (field (newItems ! j) ''id'')
                             then text_js h (field (newItems ! j) ''id'')
                             else generateId (random36 j))))"
  using assms by (rule importBulk_ids)

theorem importBulk_appends_witness:
  "read_items NoItem = Inr (JArr [])
   \<and> list_all plain_record [JObj [(''id'', JNum 1)], JObj [(''id'', JNum 1)]]
   \<and> stored_ids utc_host
        (snd (importBulk utc_host example_random example_clock NoItem
           [JObj [(''id'', JNum 1)], JObj [(''id'', JNum 1)]]))
      = [''1'', ''1'']"
proof -
  let ?batch = "[JObj [(''id'', JNum 1)], JObj [(''id'', JNum 1)]]"
  have p: "list_all plain_record ?batch" by (simp add: plain_record_def)
  have r: "read_items NoItem = Inr (JArr [])" by (simp add: read_items_def)
  from importBulk_appends [OF r p, of utc_host example_random example_clock]
  obtain processed where q: "importBulk utc_host example_random example_clock NoItem ?batch
      = (Inr (), Parses (JArr ([] @ processed)))"
    "length processed = 2"
    "\<forall>j<2. field (processed ! j) ''id'' = Some (JStr ''1'')"
    by (auto simp add: field_JObj text_js_num_1 nth_Cons')
  from q(2) obtain a b where ab: "processed = [a, b]"
    by (cases processed; cases "tl processed") auto
  from q(3) have "field (processed ! 0) ''id'' = Some (JStr ''1'')"
    "field (processed ! 1) ''id'' = Some (JStr ''1'')" by simp_all
  with ab have "id_text utc_host a = ''1''" "id_text utc_host b = ''1''"
    by (simp_all add: id_text_def text_js_JStr)
  with q(1) ab have "stored_ids utc_host
        (snd (importBulk utc_host example_random example_clock NoItem ?batch)) = [''1'', ''1'']"
    by (simp add: stored_ids_def stored_items_Parses)
  with r p show ?thesis by (intro conjI)
qed

section \<open>Properties of the record mapper\<close>

text \<open>
  Claim C5, as stated, fails when the \<^verbatim>\<open>id\<close> field is present but falsy: the source record
  \<^verbatim>\<open>{id: 0}\<close> has an \<^verbatim>\<open>id\<close>, whose string form is "0", and is given a generated identifier.
\<close>

theorem falsy_id_counterexample:
  "field (JObj [(''id'', JNum 0)]) ''id'' = Some (JNum 0)
   \<and> String_js utc_host (Some (JNum 0)) = Inr ''0''
   \<and> mapped_field utc_host ''0.4fzyo82mvyr'' 1704067200000 (JObj [(''id'', JNum 0)]) ''id''
     = Some (JStr ''4fzyo82mv'')"
proof -
  have p: "plain_record (JObj [(''id'', JNum 0)])" by (simp add: plain_record_def)
  have "String_js utc_host (Some (JNum 0)) = Inr ''0''"
    using String_js_ok [of "Some (JNum 0)" utc_host] by (simp add: text_js_num_0)
  then show ?thesis by (simp add: mapped_id [OF p] field_JObj generateId_example)
qed

text \<open>
  Claim C5, amended. For every source record given to the record mapper that is not \<^verbatim>\<open>null\<close>
  and whose property values all have a string form (none is an object with a \<^verbatim>\<open>toString\<close>
  property of its own, nor an array holding one): the mapper returns a record; if the
  source's \<^verbatim>\<open>id\<close> field is truthy (present and not \<^verbatim>\<open>0\<close>, the empty string, \<^verbatim>\<open>false\<close> or
  \<^verbatim>\<open>null\<close>), the output's \<^verbatim>\<open>id\<close> is the string that \<^verbatim>\<open>String\<close> returns for that value;
  otherwise it is a newly generated identifier. In either case the output's \<^verbatim>\<open>id\<close> is a
  string.
\<close>

theorem record_mapper_id:
  assumes "plain_record item"
  shows "\<exists>x ident. map_item h random36 now item = Inr x
           \<and> field x ''id'' = Some (JStr ident)
           \<and> (if truthy (field item ''id'')
               then String_js h (field item ''id'') = Inr ident
               else ident = generateId random36)"
proof -
  from map_item_plain [OF assms, of h random36 now]
  obtain al where x: "map_item h random36 now item = Inr (JObj al)" by blast
  have s: "String_js h (field item ''id'') = Inr (text_js h (field item ''id''))"
    using assms by (intro String_js_ok plain_field)
  have "field (JObj al) ''id'' =
           Some (JStr (if truthy (field item ''id'')
                       then text_js h (field item ''id'')
                       else generateId random36))"
    using mapped_id [OF assms, of h random36 now] by (simp add: mapped_field_eq [OF x])
  with x s show ?thesis by auto
qed

theorem record_mapper_id_witness:
  "plain_record (JObj [(''id'', JNum 42), (''name'', JStr ''Drill'')])
   \<and> String_js utc_host (field (JObj [(''id'', JNum 42), (''name'', JStr ''Drill'')]) ''id'')
       = Inr ''42''
   \<and> mapped_field utc_host ''0.4fzyo82mvyr'' 1704067200000
        (JObj [(''id'', JNum 42), (''name'', JStr ''Drill'')]) ''id'' = Some (JStr ''42'')
   \<and> plain_record (JObj [(''name'', JStr ''Drill'')])
   \<and> mapped_field utc_host ''0.4fzyo82mvyr'' 1704067200000
        (JObj [(''name'', JStr ''Drill'')]) ''id'' = Some (JStr ''4fzyo82mv'')"
proof -
  let ?a = "JObj [(''id'', JNum 42), (''name'', JStr ''Drill'')]"
  let ?b = "JObj [(''name'', JStr ''Drill'')]"
  have a: "plain_record ?a" and b: "plain_record ?b" by (simp_all add: plain_record_def)
  have s: "String_js utc_host (field ?a ''id'') = Inr ''42''"
    using String_js_ok [of "Some (JNum 42)" utc_host] by (simp add: field_JObj text_js_num_42)
  have ma: "mapped_field utc_host ''0.4fzyo82mvyr'' 1704067200000 ?a ''id'' = Some (JStr ''42'')"
    using record_mapper_id [OF a, of utc_host "''0.4fzyo82mvyr''" 1704067200000] s
    by (auto simp add: mapped_field_def field_JObj)
  have mb: "mapped_field utc_host ''0.4fzyo82mvyr'' 1704067200000 ?b ''id''
      = Some (JStr ''4fzyo82mv'')"
    using record_mapper_id [OF b, of utc_host "''0.4fzyo82mvyr''" 1704067200000]
    by (auto simp add: mapped_field_def field_JObj generateId_example)
  show ?thesis using a s ma b mb by (intro conjI)
qed

text \<open>
  Claim C1, as stated, fails when the \<^verbatim>\<open>equipment_name\<close> key is there with an empty value:
  the output's \<^verbatim>\<open>name\<close> is then the source's \<^verbatim>\<open>name\<close>, and that value is not taken for the
  assignee.
\<close>

theorem empty_equipment_name_counterexample:
  "field (JObj [(''equipment_name'', JStr []), (''name'', JStr ''Alice'')]) ''equipment_name''
     = Some (JStr [])
   \<and> mapped_field utc_host ''0.4fzyo82mvyr'' 1704067200000
        (JObj [(''equipment_name'', JStr []), (''name'', JStr ''Alice'')]) ''name''
     = Some (JStr ''Alice'')
   \<and> mapped_field utc_host ''0.4fzyo82mvyr'' 1704067200000
        (JObj [(''equipment_name'', JStr []), (''name'', JStr ''Alice'')]) ''assigneeName''
     = Some (JStr [])"
proof -
  have p: "plain_record (JObj [(''equipment_name'', JStr []), (''name'', JStr ''Alice'')])"
    by (simp add: plain_record_def)
  show ?thesis
    by (simp add: mapped_name [OF p] mapped_assigneeName [OF p] field_JObj or_js_def text_js_JStr)
qed

text \<open>
  Claim C1, amended. For every source record that is not \<^verbatim>\<open>null\<close>, whose property values all
  have a string form and whose \<^verbatim>\<open>equipment_name\<close> is truthy, the mapped output's \<^verbatim>\<open>name\<close> is
  the string that \<^verbatim>\<open>String\<close> returns for that value, and if the source's \<^verbatim>\<open>name\<close> is truthy
  too while neither \<^verbatim>\<open>assigneeName\<close> nor \<^verbatim>\<open>assignee_name\<close> is, the output's \<^verbatim>\<open>assigneeName\<close> is
  the string that \<^verbatim>\<open>String\<close> returns for the source's \<^verbatim>\<open>name\<close>. In particular, for the input
  \<^verbatim>\<open>{id: 42, due_date: "2024-01-01", equipment_name: "Drill", name: "Alice"}\<close> the output has
  \<^verbatim>\<open>id\<close> "42", \<^verbatim>\<open>dueDate\<close> "2024-01-01T00:00:00.000Z", which parses to the instant of
  1 January 2024, 00:00:00.000 UTC, \<^verbatim>\<open>name\<close> "Drill" and \<^verbatim>\<open>assigneeName\<close> "Alice".
\<close>

theorem record_mapper_name_assignee:
  "(plain_record item \<and> truthy (field item ''equipment_name'') \<longrightarrow>
      (\<exists>x name. map_item h random36 now item = Inr x
         \<and> String_js h (field item ''equipment_name'') = Inr name
         \<and> field x ''name'' = Some (JStr name)
         \<and> (truthy (field item ''name'') \<and> \<not> truthy (field item ''assigneeName'')
              \<and> \<not> truthy (field item ''assignee_name'') \<longrightarrow>
            (\<exists>assignee. String_js h (field item ''name'') = Inr assignee
               \<and> field x ''assigneeName'' = Some (JStr assignee)))))
   \<and> mapped_field h random36 now (JObj [(''id'', JNum 42), (''due_date'', JStr ''2024-01-01''),
          (''equipment_name'', JStr ''Drill''), (''name'', JStr ''Alice'')]) ''id''
       = Some (JStr ''42'')
   \<and> mapped_field h random36 now (JObj [(''id'', JNum 42), (''due_date'', JStr ''2024-01-01''),
          (''equipment_name'', JStr ''Drill''), (''name'', JStr ''Alice'')]) ''dueDate''
       = Some (JStr ''2024-01-01T00:00:00.000Z'')
   \<and> new_Date h (Some (JStr ''2024-01-01T00:00:00.000Z''))
       = Inr (Some (MakeDate (MakeDay 2024 0 1) (MakeTime 0 0 0 0)))
   \<and> mapped_field h random36 now (JObj [(''id'', JNum 42), (''due_date'', JStr ''2024-01-01''),
          (''equipment_name'', JStr ''Drill''), (''name'', JStr ''Alice'')]) ''name''
       = Some (JStr ''Drill'')
   \<and> mapped_field h random36 now (JObj [(''id'', JNum 42), (''due_date'', JStr ''2024-01-01''),
          (''equipment_name'', JStr ''Drill''), (''name'', JStr ''Alice'')]) ''assigneeName''
       = Some (JStr ''Alice'')"
proof -
  let ?ex = "JObj [(''id'', JNum 42), (''due_date'', JStr ''2024-01-01''),
          (''equipment_name'', JStr ''Drill''), (''name'', JStr ''Alice'')]"
  have general: "plain_record item \<and> truthy (field item ''equipment_name'') \<longrightarrow>
      (\<exists>x name. map_item h random36 now item = Inr x
         \<and> String_js h (field item ''equipment_name'') = Inr name
         \<and> field x ''name'' = Some (JStr name)
         \<and> (truthy (field item ''name'') \<and> \<not> truthy (field item ''assigneeName'')
              \<and> \<not> truthy (field item ''assignee_name'') \<longrightarrow>
            (\<exists>assignee. String_js h (field item ''name'') = Inr assignee
               \<and> field x ''assigneeName'' = Some (JStr assignee))))"
  proof
    assume a: "plain_record item \<and> truthy (field item ''equipment_name'')"
    then have p: "plain_record item" and t: "truthy (field item ''equipment_name'')" by simp_all
    from map_item_plain [OF p, of h random36 now]
    obtain al where x: "map_item h random36 now item = Inr (JObj al)" by blast
    have s1: "String_js h (field item ''equipment_name'')
        = Inr (text_js h (field item ''equipment_name''))"
      using p by (intro String_js_ok plain_field)
    have s2: "String_js h (field item ''name'') = Inr (text_js h (field item ''name''))"
      using p by (intro String_js_ok plain_field)
    have n: "field (JObj al) ''name'' = Some (JStr (text_js h (field item ''equipment_name'')))"
      using mapped_name [OF p, of h random36 now] t by (simp add: mapped_field_eq [OF x])
    have as: "field (JObj al) ''assigneeName'' = Some (JStr (text_js h (field item ''name'')))"
      if "truthy (field item ''name'')" "\<not> truthy (field item ''assigneeName'')"
        "\<not> truthy (field item ''assignee_name'')"
      using mapped_assigneeName [OF p, of h random36 now] t that
      by (simp add: mapped_field_eq [OF x] or_js_def)
    show "\<exists>x name. map_item h random36 now item = Inr x
         \<and> String_js h (field item ''equipment_name'') = Inr name
         \<and> field x ''name'' = Some (JStr name)
         \<and> (truthy (field item ''name'') \<and> \<not> truthy (field item ''assigneeName'')
              \<and> \<not> truthy (field item ''assignee_name'') \<longrightarrow>
            (\<exists>assignee. String_js h (field item ''name'') = Inr assignee
               \<and> field x ''assigneeName'' = Some (JStr assignee)))"
      using x s1 s2 n as by blast
  qed
  have p: "plain_record ?ex" by (simp add: plain_record_def)
  have name: "mapped_field h random36 now ?ex ''name'' = Some (JStr ''Drill'')"
    by (simp add: mapped_name [OF p] field_JObj text_js_JStr)
  have assignee: "mapped_field h random36 now ?ex ''assigneeName'' = Some (JStr ''Alice'')"
    by (simp add: mapped_assigneeName [OF p] field_JObj or_js_def text_js_JStr)
  have ident: "mapped_field h random36 now ?ex ''id'' = Some (JStr ''42'')"
    by (simp add: mapped_id [OF p] field_JObj text_js_num_42)
  have due: "mapped_field h random36 now ?ex ''dueDate'' = Some (JStr ''2024-01-01T00:00:00.000Z'')"
    by (simp add: mapped_dueDate [OF p] field_JObj or_js_def date_value_def new_Date_def
        Date_parse_def iso_parse_date_example TimeClip_def iso_text_example)
  have again: "new_Date h (Some (JStr ''2024-01-01T00:00:00.000Z''))
       = Inr (Some (MakeDate (MakeDay 2024 0 1) (MakeTime 0 0 0 0)))"
    by (simp add: new_Date_def Date_parse_def iso_parse_full_example TimeClip_def instant_example)
  show ?thesis using general name assignee ident due again by (intro conjI)
qed

theorem record_mapper_name_assignee_witness:
  "plain_record (JObj [(''equipment_name'', JStr ''Pump''), (''name'', JNum 7),
         (''assigneeName'', JStr [])])
   \<and> truthy (field (JObj [(''equipment_name'', JStr ''Pump''), (''name'', JNum 7),
         (''assigneeName'', JStr [])]) ''equipment_name'')
   \<and> truthy (field (JObj [(''equipment_name'', JStr ''Pump''), (''name'', JNum 7),
         (''assigneeName'', JStr [])]) ''name'')
   \<and> \<not> truthy (field (JObj [(''equipment_name'', JStr ''Pump''), (''name'', JNum 7),
         (''assigneeName'', JStr [])]) ''assigneeName'')
   \<and> \<not> truthy (field (JObj [(''equipment_name'', JStr ''Pump''), (''name'', JNum 7),
         (''assigneeName'', JStr [])]) ''assignee_name'')
   \<and> mapped_field utc_host ''0.4fzyo82mvyr'' 1704067200000
        (JObj [(''equipment_name'', JStr ''Pump''), (''name'', JNum 7),
          (''assigneeName'', JStr [])]) ''name'' = Some (JStr ''Pump'')
   \<and> mapped_field utc_host ''0.4fzyo82mvyr'' 1704067200000
        (JObj [(''equipment_name'', JStr ''Pump''), (''name'', JNum 7),
          (''assigneeName'', JStr [])]) ''assigneeName'' = Some (JStr ''7'')"
proof -
  let ?ex = "JObj [(''equipment_name'', JStr ''Pump''), (''name'', JNum 7),
         (''assigneeName'', JStr [])]"
  have ex: "plain_record ?ex" "truthy (field ?ex ''equipment_name'')" "truthy (field ?ex ''name'')"
    "\<not> truthy (field ?ex ''assigneeName'')" "\<not> truthy (field ?ex ''assignee_name'')"
    by (simp_all add: field_JObj plain_record_def)
  have s: "String_js utc_host (field ?ex ''equipment_name'') = Inr ''Pump''"
    "String_js utc_host (field ?ex ''name'') = Inr ''7''"
    using String_js_ok [of "Some (JNum 7)" utc_host] String_js_ok [of "Some (JStr ''Pump'')" utc_host]
    by (simp_all add: field_JObj text_js_num_7 text_js_JStr)
  from record_mapper_name_assignee [of ?ex utc_host "''0.4fzyo82mvyr''" 1704067200000] ex
  obtain x where x: "map_item utc_host ''0.4fzyo82mvyr'' 1704067200000 ?ex = Inr x"
    "field x ''name'' = Some (JStr ''Pump'')" "field x ''assigneeName'' = Some (JStr ''7'')"
    unfolding s by auto
  then have "mapped_field utc_host ''0.4fzyo82mvyr'' 1704067200000 ?ex ''name'' = Some (JStr ''Pump'')"
    "mapped_field utc_host ''0.4fzyo82mvyr'' 1704067200000 ?ex ''assigneeName'' = Some (JStr ''7'')"
    by (simp_all add: mapped_field_def)
  with ex show ?thesis by (intro conjI)
qed

section \<open>Properties of the field normalizer\<close>

text \<open>
  Claim C3. \<^verbatim>\<open>safeDate\<close> makes its date, \<^verbatim>\<open>new Date(val)\<close>, before its \<^verbatim>\<open>try\<close>: on an object
  with a \<^verbatim>\<open>toString\<close> property of its own that is no function, such as \<^verbatim>\<open>{toString: null}\<close>
  read from JSON, the conversion to a primitive throws a \<^verbatim>\<open>TypeError\<close>, which leaves
  \<^verbatim>\<open>safeDate\<close>. That is the only exception: for every input the call throws that error, or
  returns the empty string, or returns the ISO text of the instant of \<^verbatim>\<open>new Date(val)\<close>, and
  that text parses again to the same instant and \<^verbatim>\<open>safeDate\<close> maps it to itself; and it
  never throws on a value that has a string form.
\<close>

theorem safeDate_outcomes:
  "safeDate h (Some (JObj [(''toString'', JNull)])) = Inl TypeError
   \<and> (safeDate h v = Inl TypeError
      \<or> safeDate h v = Inr []
      \<or> (\<exists>t. new_Date h v = Inr (Some t) \<and> safeDate h v = Inr (iso_text t)
            \<and> new_Date h (Some (JStr (iso_text t))) = Inr (Some t)
            \<and> safeDate h (Some (JStr (iso_text t))) = Inr (iso_text t)))
   \<and> (string_ok v \<longrightarrow> (\<exists>s. safeDate h v = Inr s))"
proof (intro conjI impI)
  show "safeDate h (Some (JObj [(''toString'', JNull)])) = Inl TypeError"
    by (simp add: safeDate_def new_Date_def)
next
  from safeDate_cases [of h v]
  consider "safeDate h v = Inl TypeError" | "safeDate h v = Inr []"
    | t where "new_Date h v = Inr (Some t)" "safeDate h v = Inr (iso_text t)"
    by blast
  then show "safeDate h v = Inl TypeError
      \<or> safeDate h v = Inr []
      \<or> (\<exists>t. new_Date h v = Inr (Some t) \<and> safeDate h v = Inr (iso_text t)
            \<and> new_Date h (Some (JStr (iso_text t))) = Inr (Some t)
            \<and> safeDate h (Some (JStr (iso_text t))) = Inr (iso_text t))"
  proof cases
    case 3
    from new_Date_range [OF 3(1)] have "\<bar>t\<bar> \<le> 8640000000000000" .
    from safeDate_iso_text [OF this, of h] 3 show ?thesis by blast
  qed simp_all
next
  assume "string_ok v"
  then show "\<exists>s. safeDate h v = Inr s" by (simp add: safeDate_ok)
qed

theorem safeDate_outcomes_witness:
  "string_ok (Some (JStr ''2024-01-01''))
   \<and> safeDate utc_host (Some (JStr ''2024-01-01'')) = Inr ''2024-01-01T00:00:00.000Z''
   \<and> new_Date utc_host (Some (JStr ''2024-01-01'')) = Inr (Some 1704067200000)
   \<and> new_Date utc_host (Some (JStr ''2024-01-01T00:00:00.000Z'')) = Inr (Some 1704067200000)
   \<and> safeDate utc_host (Some (JStr ''2024-01-01T00:00:00.000Z''))
       = Inr ''2024-01-01T00:00:00.000Z''"
proof -
  have d: "new_Date utc_host (Some (JStr ''2024-01-01'')) = Inr (Some 1704067200000)"
    by (simp add: new_Date_def Date_parse_def iso_parse_date_example TimeClip_def)
  then have s: "safeDate utc_host (Some (JStr ''2024-01-01'')) = Inr ''2024-01-01T00:00:00.000Z''"
    by (simp add: safeDate_def iso_text_example)
  from safeDate_outcomes [of utc_host "Some (JStr ''2024-01-01'')"] d s
  have "new_Date utc_host (Some (JStr (iso_text 1704067200000))) = Inr (Some 1704067200000)
      \<and> safeDate utc_host (Some (JStr (iso_text 1704067200000))) = Inr (iso_text 1704067200000)"
    by auto
  with d s show ?thesis by (simp add: iso_text_example)
qed

text \<open>
  Claim C4, as stated, fails for a value that does not start with a letter: the text
  \<^verbatim>\<open>1st\<close> is returned as it is, and its first character is not upper-case.
\<close>

theorem normalizeEnum_digit_counterexample:
  "normalizeEnum utc_host (Some (JStr ''1st'')) ''Other'' = Inr ''1st''
   \<and> \<not> is_upper (hd ''1st'')"
  by (simp add: normalizeEnum_def String_js_def or_js_def trim_digits_example charAt_def slice_def
      toUpperCase_def toLowerCase_def case_examples)

text \<open>
  Claim C4, amended. For every value \<open>v\<close> that has a string form, of ASCII characters, and
  every fallback string \<open>f\<close>, \<^verbatim>\<open>normalizeEnum(v, f)\<close> returns a string. With \<open>s\<close> the string
  of \<^verbatim>\<open>v || ''\<close>, which is empty when \<open>v\<close> is falsy (absent, \<^verbatim>\<open>null\<close>, \<^verbatim>\<open>false\<close>, \<^verbatim>\<open>0\<close> or the
  empty string), trimmed of white space: if that is empty the result is \<open>f\<close>, and otherwise
  it is that text with its first character mapped to upper case and the others to lower
  case, so that the first character is not a lower-case letter, is an upper-case letter if
  the text starts with a letter, and no other character is an upper-case letter.
\<close>

theorem normalizeEnum_result:
  assumes "string_ok v" and "ascii (text_js h (or_js v (Some (JStr []))))"
  shows "\<exists>s. String_js h (or_js v (Some (JStr []))) = Inr s
     \<and> (\<not> truthy v \<longrightarrow> trim s = [])
     \<and> (if trim s = [] then normalizeEnum h v f = Inr f
        else normalizeEnum h v f = Inr (to_upper (hd (trim s)) # map to_lower (tl (trim s)))
           \<and> \<not> is_lower (to_upper (hd (trim s)))
           \<and> (is_lower (hd (trim s)) \<or> is_upper (hd (trim s))
                \<longrightarrow> is_upper (to_upper (hd (trim s))))
           \<and> list_all (\<lambda>c. \<not> is_upper c) (map to_lower (tl (trim s))))"
proof -
  define s where "s = text_js h (or_js v (Some (JStr [])))"
  have a: "String_js h (or_js v (Some (JStr []))) = Inr s"
    unfolding s_def using assms(1) by (intro String_js_ok string_ok_or_js) simp_all
  have b: "\<not> truthy v \<longrightarrow> trim s = []"
    using assms(1) by (simp add: s_def falsy_text trim_def)
  have c: "normalizeEnum h v f =
      Inr (if trim s = [] then f else to_upper (hd (trim s)) # map to_lower (tl (trim s)))"
    using normalizeEnum_ok [OF assms(1), of h f] by (simp add: s_def Let_def)
  have d: "list_all (\<lambda>c. \<not> is_upper c) (map to_lower (tl (trim s)))"
    by (simp add: list_all_iff to_lower_not_upper)
  show ?thesis
    using a b c d to_upper_not_lower [of "hd (trim s)"] to_upper_letter [of "hd (trim s)"]
    by auto
qed

theorem normalizeEnum_result_witness:
  "string_ok (Some (JStr ''  laPTop ''))
   \<and> ascii (text_js utc_host (or_js (Some (JStr ''  laPTop '')) (Some (JStr []))))
   \<and> normalizeEnum utc_host (Some (JStr ''  laPTop '')) ''Other'' = Inr ''Laptop''
   \<and> string_ok None
   \<and> ascii (text_js utc_host (or_js None (Some (JStr []))))
   \<and> normalizeEnum utc_host None ''Other'' = Inr ''Other''"
proof -
  have a: "string_ok (Some (JStr ''  laPTop ''))" "string_ok None" by simp_all
  have t: "text_js utc_host (or_js (Some (JStr ''  laPTop '')) (Some (JStr []))) = ''  laPTop ''"
    "text_js utc_host (or_js None (Some (JStr []))) = []"
    by (simp_all add: or_js_def text_js_JStr)
  have b: "ascii (text_js utc_host (or_js (Some (JStr ''  laPTop '')) (Some (JStr []))))"
    "ascii (text_js utc_host (or_js None (Some (JStr []))))"
    unfolding t by (simp_all add: ascii_def)
  have s: "String_js utc_host (or_js (Some (JStr ''  laPTop '')) (Some (JStr []))) = Inr ''  laPTop ''"
    "String_js utc_host (or_js None (Some (JStr []))) = Inr []"
    by (simp_all add: or_js_def String_js_def)
  have e: "trim [] = []" by (simp add: trim_def)
  have c: "normalizeEnum utc_host (Some (JStr ''  laPTop '')) ''Other'' = Inr ''Laptop''"
    using normalizeEnum_result [OF a(1) b(1), of "''Other''"]
    unfolding s by (auto simp add: trim_example case_examples)
  have d: "normalizeEnum utc_host None ''Other'' = Inr ''Other''"
    using normalizeEnum_result [OF a(2) b(2), of "''Other''"]
    unfolding s by (auto simp add: e)
  show ?thesis using a b c d by (intro conjI)
qed

section \<open>Properties of the dashboard statistics\<close>

text \<open>
  Claim C7, as stated for every record set, fails on a record whose \<^verbatim>\<open>dueDate\<close> is the
  number 0: \<^verbatim>\<open>new Date(0)\<close> is a valid instant, of 1970 and so before now + 30 days, but
  the test \<^verbatim>\<open>if (item.dueDate)\<close> passes the record over and it is not counted.
\<close>

theorem expired_zero_counterexample:
  "new_Date utc_host (field (JObj [(''dueDate'', JNum 0)]) ''dueDate'') = Inr (Some 0)
   \<and> setDate utc_host 1704067200000 (getDate utc_host 1704067200000 + 30) = Some 1706659200000
   \<and> date_le (Some 0) (Some 1706659200000)
   \<and> map_sum id expired
        (dashboard_stats utc_host 1704067200000 1704067200000 [JObj [(''dueDate'', JNum 0)]])
       = Inr 0"
proof -
  have p: "list_all plain_record [JObj [(''dueDate'', JNum 0)]]" by (simp add: plain_record_def)
  have a: "new_Date utc_host (field (JObj [(''dueDate'', JNum 0)]) ''dueDate'') = Inr (Some 0)"
    by (simp add: field_JObj new_Date_def TimeClip_num_def)
  have b: "setDate utc_host 1704067200000 (getDate utc_host 1704067200000 + 30)
      = Some 1706659200000"
    using setDate_same_offset [of utc_host 1704067200000 30]
    by (simp add: utc_host_def LocalTime_def msPerDay_def)
  from dashboard_expired [OF p, of utc_host 1704067200000 1704067200000]
  have "map_sum id expired
        (dashboard_stats utc_host 1704067200000 1704067200000 [JObj [(''dueDate'', JNum 0)]])
       = Inr 0"
    by (auto simp add: due_by_def field_JObj)
  with a b show ?thesis by simp
qed

text \<open>
  Claim C7, amended. For every set of records that are not \<^verbatim>\<open>null\<close> and whose property
  values all have a string form, and a fixed evaluation instant \<open>now\<close>, the aggregator
  returns its statistics, and the \<^verbatim>\<open>expired\<close> count is the number of records whose
  \<^verbatim>\<open>dueDate\<close> is truthy and makes a valid date that is less than or equal to the horizon:
  the instant with the local calendar date of \<open>now\<close> moved on by 30 days at the same local
  time of day, which is \<open>now\<close> + 30 days of 24 hours when the offset of local time is the
  same at both instants, as in UTC. So a record due 31 days ahead is not counted, one due
  exactly 30 days ahead is, and so is every record with a past due date, however old.
\<close>

theorem expired_count:
  "(list_all plain_record data \<longrightarrow>
      (\<exists>s. dashboard_stats h now now data = Inr s
         \<and> expired s = length (filter (due_by h (setDate h now (getDate h now + 30))) data)))
   \<and> (tza_local h (LocalTime h now + 30 * msPerDay) = tza_utc h now
        \<and> \<bar>now + 30 * msPerDay\<bar> \<le> 8640000000000000 \<longrightarrow>
      setDate h now (getDate h now + 30) = Some (now + 30 * msPerDay))
   \<and> (\<forall>b item. due_by h (Some b) item =
        (truthy (field item ''dueDate'')
         \<and> (\<exists>t. date_value h (field item ''dueDate'') = Some t \<and> t \<le> b)))"
proof (intro conjI impI allI)
  assume "list_all plain_record data"
  then show "\<exists>s. dashboard_stats h now now data = Inr s
         \<and> expired s = length (filter (due_by h (setDate h now (getDate h now + 30))) data)"
    by (rule dashboard_expired)
next
  assume "tza_local h (LocalTime h now + 30 * msPerDay) = tza_utc h now
        \<and> \<bar>now + 30 * msPerDay\<bar> \<le> 8640000000000000"
  then show "setDate h now (getDate h now + 30) = Some (now + 30 * msPerDay)"
    by (simp add: setDate_same_offset)
next
  fix b item
  show "due_by h (Some b) item =
        (truthy (field item ''dueDate'')
         \<and> (\<exists>t. date_value h (field item ''dueDate'') = Some t \<and> t \<le> b))"
    by (cases "date_value h (field item ''dueDate'')") (simp_all add: due_by_def)
qed

theorem expired_count_witness:
  "list_all plain_record
     [JObj [(''id'', JStr ''a''), (''dueDate'', JStr ''2024-01-31T00:00:00.000Z'')],
      JObj [(''id'', JStr ''b''), (''dueDate'', JStr ''2024-02-01T00:00:00.000Z'')],
      JObj [(''id'', JStr ''c''), (''dueDate'', JStr ''1999-12-31'')],
      JObj [(''id'', JStr ''d''), (''dueDate'', JStr [])]]
   \<and> tza_local utc_host (LocalTime utc_host 1704067200000 + 30 * msPerDay)
        = tza_utc utc_host 1704067200000
   \<and> \<bar>1704067200000 + 30 * msPerDay\<bar> \<le> 8640000000000000
   \<and> setDate utc_host 1704067200000 (getDate utc_host 1704067200000 + 30) = Some 1706659200000
   \<and> date_value utc_host (Some (JStr ''2024-01-31T00:00:00.000Z'')) = Some (1704067200000 + 30 * msPerDay)
   \<and> date_value utc_host (Some (JStr ''2024-02-01T00:00:00.000Z'')) = Some (1704067200000 + 31 * msPerDay)
   \<and> date_value utc_host (Some (JStr ''1999-12-31'')) = Some 946598400000
   \<and> (\<exists>s. dashboard_stats utc_host 1704067200000 1704067200000
        [JObj [(''id'', JStr ''a''), (''dueDate'', JStr ''2024-01-31T00:00:00.000Z'')],
         JObj [(''id'', JStr ''b''), (''dueDate'', JStr ''2024-02-01T00:00:00.000Z'')],
         JObj [(''id'', JStr ''c''), (''dueDate'', JStr ''1999-12-31'')],
         JObj [(''id'', JStr ''d''), (''dueDate'', JStr [])]] = Inr s
       \<and> expired s = 2)"
proof -
  let ?data = "[JObj [(''id'', JStr ''a''), (''dueDate'', JStr ''2024-01-31T00:00:00.000Z'')],
      JObj [(''id'', JStr ''b''), (''dueDate'', JStr ''2024-02-01T00:00:00.000Z'')],
      JObj [(''id'', JStr ''c''), (''dueDate'', JStr ''1999-12-31'')],
      JObj [(''id'', JStr ''d''), (''dueDate'', JStr [])]]"
  note t = expired_count [of ?data utc_host 1704067200000]
  have p: "list_all plain_record ?data" by (simp add: plain_record_def)
  have z: "tza_local utc_host (LocalTime utc_host 1704067200000 + 30 * msPerDay)
        = tza_utc utc_host 1704067200000"
    by (simp add: utc_host_def)
  have r: "\<bar>1704067200000 + 30 * msPerDay\<bar> \<le> (8640000000000000 :: int)"
    by (simp add: msPerDay_def)
  have hz: "setDate utc_host 1704067200000 (getDate utc_host 1704067200000 + 30)
      = Some 1706659200000"
    using t z r by (simp add: msPerDay_def)
  have d: "date_value utc_host (Some (JStr ''2024-01-31T00:00:00.000Z'')) = Some 1706659200000"
    "date_value utc_host (Some (JStr ''2024-02-01T00:00:00.000Z'')) = Some 1706745600000"
    "date_value utc_host (Some (JStr ''1999-12-31'')) = Some 946598400000"
    by (simp_all add: date_value_iso iso_parse_due_examples)
  have e: "date_value utc_host (Some (JStr [])) = None"
    by (simp add: date_value_def new_Date_def Date_parse_def)
  have f: "length (filter (due_by utc_host (Some 1706659200000)) ?data) = 2"
    by (simp add: due_by_def field_JObj d e)
  have g: "\<exists>s. dashboard_stats utc_host 1704067200000 1704067200000 ?data = Inr s
       \<and> expired s = 2"
    using t p unfolding hz f by blast
  have d': "date_value utc_host (Some (JStr ''2024-01-31T00:00:00.000Z'')) = Some (1704067200000 + 30 * msPerDay)"
    "date_value utc_host (Some (JStr ''2024-02-01T00:00:00.000Z'')) = Some (1704067200000 + 31 * msPerDay)"
    by (simp_all add: d msPerDay_def)
  show ?thesis using p z r hz d' d(3) g by (intro conjI)
qed

end
